theory Spec2Isabelle
  imports Complex_Main "HOL-Library.Word" "HOL-Library.Sublist"
begin

section \<open>Machine types\<close>

text \<open>
  \<open>size_t\<close> is a 64-bit unsigned integer (the target is a 64-bit Jetson board): \<open>+\<close>,
  \<open>-\<close> and \<open>*\<close> wrap around. C++ \<open>int\<close> is a 32-bit word.

  \<open>float\<close> is the type variable \<open>'f\<close>. The definitions ask of it only the operations the
  source uses (\<open>0.0\<close>, \<open>+\<close>, \<open>*\<close>, \<open><\<close>: the classes \<open>zero\<close>, \<open>plus\<close>, \<open>times\<close>,
  \<open>ord\<close>, which carry no laws), so they hold for IEEE single precision as for any other
  reading of \<open>float\<close>. The two conversions between integers and \<open>float\<close> are the fields of
  a record that the functions take as their first argument.
\<close>

type_synonym size_t = "64 word"
type_synonym cint = "32 word"

record 'f float_conv =
  to_float :: "int \<Rightarrow> 'f"  \<comment> \<open>the implicit conversion of an integer value to \<open>float\<close>\<close>
  to_size :: "'f \<Rightarrow> size_t"  \<comment> \<open>the cast \<open>(size_t)f\<close>\<close>

datatype error =
  DivisionByZero  \<comment> \<open>an integer division by zero: undefined behaviour in C++\<close>
| LengthError  \<comment> \<open>\<open>std::length_error\<close>: a vector asked for more than its \<open>max_size()\<close>\<close>
| NotConfiguredError  \<comment> \<open>the error the specification names; no path of the source raises it\<close>

definition thenE :: "error + 'a \<Rightarrow> ('a \<Rightarrow> error + 'b) \<Rightarrow> error + 'b" where
  "thenE r f = (case r of Inl e \<Rightarrow> Inl e | Inr a \<Rightarrow> f a)"

section \<open>CUDAImagePreprocessor.cpp\<close>

text \<open>
  The preprocessor holds two pointers to cache objects that live on the heap. A pointer
  is an address; the heap maps an address to the object stored there. The class
  \<open>CUDASizedMemCache\<close> is declared outside the sources, so the type of its objects is
  the type variable \<open>'c\<close>.
\<close>

type_synonym addr = nat

record CUDAImagePreprocessor =
  inputCache :: addr
  outputCache :: addr

record 'c world =
  heap :: "addr \<Rightarrow> 'c"
  preprocessor :: CUDAImagePreprocessor

definition swapIO :: "'c world \<Rightarrow> 'c world" where
  "swapIO w =
     (let tmp = outputCache (preprocessor w);
          p1 = (preprocessor w)\<lparr>outputCache := inputCache (preprocessor w)\<rparr>;
          p2 = p1\<lparr>inputCache := tmp\<rparr>
      in w\<lparr>preprocessor := p2\<rparr>)"

section \<open>DIGITSDetector.cpp: rectangles\<close>

text \<open>
  \<open>struct float6\<close>: the fields \<open>x\<close>, \<open>y\<close>, \<open>z\<close>, \<open>w\<close> are the left, top, right and bottom
  edge, \<open>v\<close> the coverage and \<open>u\<close> the class. The field names carry the prefix \<open>f6_\<close>.
\<close>

record 'f float6 =
  f6_x :: 'f
  f6_y :: 'f
  f6_z :: 'f
  f6_w :: 'f
  f6_v :: 'f
  f6_u :: 'f

definition make_float6 :: "'f \<Rightarrow> 'f \<Rightarrow> 'f \<Rightarrow> 'f \<Rightarrow> 'f \<Rightarrow> 'f \<Rightarrow> 'f float6" where
  "make_float6 x y z w v u = \<lparr>f6_x = x, f6_y = y, f6_z = z, f6_w = w, f6_v = v, f6_u = u\<rparr>"

definition rectOverlap :: "'f::ord float6 \<Rightarrow> 'f float6 \<Rightarrow> bool" where
  "rectOverlap r1 r2 =
     (\<not> (f6_x r2 > f6_z r1 \<or> f6_z r2 < f6_x r1 \<or> f6_y r2 > f6_w r1 \<or> f6_w r2 < f6_y r1))"

text \<open>The four conditional assignments to \<open>rects[r]\<close> inside the loop of \<open>mergeRect\<close>.\<close>

definition mergeRect_assign :: "'f::ord float6 \<Rightarrow> 'f float6 \<Rightarrow> 'f float6" where
  "mergeRect_assign a rect =
     (let a1 = (if f6_x rect < f6_x a then a\<lparr>f6_x := f6_x rect\<rparr> else a);
          a2 = (if f6_y rect < f6_y a1 then a1\<lparr>f6_y := f6_y rect\<rparr> else a1);
          a3 = (if f6_z rect > f6_z a2 then a2\<lparr>f6_z := f6_z rect\<rparr> else a2);
          a4 = (if f6_w rect > f6_w a3 then a3\<lparr>f6_w := f6_w rect\<rparr> else a3)
      in a4)"

text \<open>
  The loop of \<open>mergeRect\<close> from index \<open>r\<close> on; it returns the vector and the flag
  \<open>intersects\<close>. \<open>break\<close> is the branch without a recursive call.
\<close>

function mergeRect_loop :: "'f::ord float6 list \<Rightarrow> 'f float6 \<Rightarrow> nat \<Rightarrow> 'f float6 list \<times> bool" where
  "mergeRect_loop rects rect r =
     (if r < length rects then
        (if rectOverlap (rects ! r) rect
         then (rects[r := mergeRect_assign (rects ! r) rect], True)
         else mergeRect_loop rects rect (Suc r))
      else (rects, False))"
  by pat_completeness auto
termination
  by (relation "measure (\<lambda>(rects, rect, r). length rects - r)") auto

declare mergeRect_loop.simps [simp del]

definition mergeRect :: "'f::ord float6 list \<Rightarrow> 'f float6 \<Rightarrow> 'f float6 list" where
  "mergeRect rects rect =
     (case mergeRect_loop rects rect 0 of
        (rects', intersects) \<Rightarrow> if \<not> intersects then rects' @ [rect] else rects')"

text \<open>The component-wise union of two rectangles, in the words of the specification.\<close>

definition unionRect :: "'f::linorder float6 \<Rightarrow> 'f float6 \<Rightarrow> 'f float6" where
  "unionRect a rect =
     a\<lparr>f6_x := min (f6_x a) (f6_x rect), f6_y := min (f6_y a) (f6_y rect),
       f6_z := max (f6_z a) (f6_z rect), f6_w := max (f6_w a) (f6_w rect)\<rparr>"

section \<open>DIGITSDetector.cpp: the geometry of the suppressor\<close>

text \<open>
  \<open>class ClusteredNonMaximumSuppression\<close> is declared in \<open>DIGITSDetector.h\<close>, which is not
  among the sources; the types of its fields are read off \<open>DIGITSDetector.cpp\<close>. The
  setters store their \<open>size_t\<close> arguments in the dimension fields; \<open>gridDimX\<close> and
  \<open>gridSize\<close> are operands of the index of a \<open>float\<close> array, so they are integers; the
  constructor sets \<open>imageScaleX\<close> and \<open>imageScaleY\<close> to the floating literal \<open>0.0\<close> and
  every other numeric field to the integer literal \<open>0\<close>. So the two image scales are
  \<open>float\<close> and the dimensions, \<open>gridSize\<close>, \<open>cellWidth\<close> and \<open>cellHeight\<close> are \<open>size_t\<close>.
\<close>

record 'f ClusteredNonMaximumSuppression =
  imageDimX :: size_t
  imageDimY :: size_t
  imageScaleX :: 'f
  imageScaleY :: 'f
  inputDimX :: size_t
  inputDimY :: size_t
  gridDimX :: size_t
  gridDimY :: size_t
  cellWidth :: size_t
  cellHeight :: size_t
  gridSize :: size_t
  imageReady :: bool
  inputReady :: bool
  gridReady :: bool

text \<open>The constructor.\<close>

definition new_ClusteredNonMaximumSuppression :: "'f::zero ClusteredNonMaximumSuppression" where
  "new_ClusteredNonMaximumSuppression =
     \<lparr>imageDimX = 0, imageDimY = 0, imageScaleX = 0, imageScaleY = 0,
      inputDimX = 0, inputDimY = 0, gridDimX = 0, gridDimY = 0,
      cellWidth = 0, cellHeight = 0, gridSize = 0,
      imageReady = False, inputReady = False, gridReady = False\<rparr>"

text \<open>
  The operator \<open>/\<close> on two \<open>size_t\<close> values: the truncating quotient, and undefined
  behaviour when the divisor is zero, which the model returns as an error.
\<close>

definition size_div :: "size_t \<Rightarrow> size_t \<Rightarrow> error + size_t" where
  "size_div a b = (if b = 0 then Inl DivisionByZero else Inr (a div b))"

definition calculateScale ::
  "'f float_conv \<Rightarrow> 'f ClusteredNonMaximumSuppression \<Rightarrow> error + 'f ClusteredNonMaximumSuppression" where
  "calculateScale F s =
     thenE (size_div (inputDimX s) (imageDimX s)) (\<lambda>q1.
     thenE (size_div (inputDimY s) (imageDimY s)) (\<lambda>q2.
     thenE (size_div (inputDimX s) (gridDimX s)) (\<lambda>q3.
     thenE (size_div (inputDimY s) (gridDimY s)) (\<lambda>q4.
       Inr (s\<lparr>imageScaleX := to_float F (uint q1), imageScaleY := to_float F (uint q2),
              cellWidth := q3, cellHeight := q4\<rparr>)))))"

definition setupImage ::
  "'f float_conv \<Rightarrow> size_t \<Rightarrow> size_t \<Rightarrow> 'f ClusteredNonMaximumSuppression
     \<Rightarrow> error + 'f ClusteredNonMaximumSuppression" where
  "setupImage F dimX dimY s =
     (let s1 = s\<lparr>imageDimX := dimX, imageDimY := dimY, imageReady := True\<rparr>
      in if imageReady s1 \<and> inputReady s1 \<and> gridReady s1 then calculateScale F s1 else Inr s1)"

definition setupInput ::
  "'f float_conv \<Rightarrow> size_t \<Rightarrow> size_t \<Rightarrow> 'f ClusteredNonMaximumSuppression
     \<Rightarrow> error + 'f ClusteredNonMaximumSuppression" where
  "setupInput F dimX dimY s =
     (let s1 = s\<lparr>inputDimX := dimX, inputDimY := dimY, inputReady := True\<rparr>
      in if imageReady s1 \<and> inputReady s1 \<and> gridReady s1 then calculateScale F s1 else Inr s1)"

definition setupGrid ::
  "'f float_conv \<Rightarrow> size_t \<Rightarrow> size_t \<Rightarrow> 'f ClusteredNonMaximumSuppression
     \<Rightarrow> error + 'f ClusteredNonMaximumSuppression" where
  "setupGrid F dimX dimY s =
     (let s1 = s\<lparr>gridDimX := dimX, gridDimY := dimY, gridSize := dimX * dimY,
                 gridReady := True\<rparr>
      in if imageReady s1 \<and> inputReady s1 \<and> gridReady s1 then calculateScale F s1 else Inr s1)"

text \<open>A call of one of the three setters, and a sequence of such calls on one object.\<close>

datatype setter = SetupImage size_t size_t | SetupInput size_t size_t | SetupGrid size_t size_t

fun setup_call ::
  "'f float_conv \<Rightarrow> setter \<Rightarrow> 'f ClusteredNonMaximumSuppression
     \<Rightarrow> error + 'f ClusteredNonMaximumSuppression" where
  "setup_call F (SetupImage dimX dimY) s = setupImage F dimX dimY s"
| "setup_call F (SetupInput dimX dimY) s = setupInput F dimX dimY s"
| "setup_call F (SetupGrid dimX dimY) s = setupGrid F dimX dimY s"

fun setup_calls ::
  "'f float_conv \<Rightarrow> setter list \<Rightarrow> 'f ClusteredNonMaximumSuppression
     \<Rightarrow> error + 'f ClusteredNonMaximumSuppression" where
  "setup_calls F [] s = Inr s"
| "setup_calls F (k # ks) s = thenE (setup_call F k s) (setup_calls F ks)"

section \<open>DIGITSDetector.cpp: execute\<close>

text \<open>
  Modelled from the spec: \<open>class RTClassifiedRegionOfInterest\<close> is declared in
  \<open>RTCommon.h\<close>, which is not among the sources. The specification describes it as a class
  identifier, a confidence score and a rectangle (x, y, width, height); the record holds
  these six values as \<open>execute\<close> passes them to the constructor.
\<close>

record 'f RTClassifiedRegionOfInterest =
  roi_classID :: cint
  roi_confidence :: 'f
  roi_x :: size_t
  roi_y :: size_t
  roi_w :: size_t
  roi_h :: size_t

text \<open>
  A \<open>float*\<close> argument is a function from the \<open>size_t\<close> offset to the \<open>float\<close> stored
  there. The loop counters \<open>c\<close>, \<open>y\<close>, \<open>x\<close>, \<open>b\<close> and \<open>boxIndex\<close> are natural numbers; in
  an index they are converted to \<open>size_t\<close>, as the source converts its \<open>int\<close> counters,
  and the index arithmetic wraps around. A count that an \<open>int\<close> counter of the source
  cannot hold (a grid dimension or a number of classes beyond \<open>INT_MAX\<close>, where the
  increment of the counter is undefined behaviour) is outside the model.

  The rectangle that \<open>execute\<close> passes to \<open>mergeRect\<close> for class \<open>c\<close> and cell \<open>(x, y)\<close>
  whose coverage is \<open>cvg\<close>:
\<close>

definition execute_rect ::
  "'f::{plus,times} float_conv \<Rightarrow> 'f ClusteredNonMaximumSuppression \<Rightarrow> (size_t \<Rightarrow> 'f)
     \<Rightarrow> 'f \<Rightarrow> nat \<Rightarrow> nat \<Rightarrow> nat \<Rightarrow> 'f float6" where
  "execute_rect F s bboxes cvg c y x =
     (let mx = to_float F (uint (of_nat x * cellWidth s));
          my = to_float F (uint (of_nat y * cellHeight s));
          x1 = (bboxes (0 * gridSize s + of_nat y * gridDimX s + of_nat x) + mx) * imageScaleX s;
          y1 = (bboxes (1 * gridSize s + of_nat y * gridDimX s + of_nat x) + my) * imageScaleY s;
          x2 = (bboxes (2 * gridSize s + of_nat y * gridDimX s + of_nat x) + mx) * imageScaleX s;
          y2 = (bboxes (3 * gridSize s + of_nat y * gridDimX s + of_nat x) + my) * imageScaleY s
      in make_float6 x1 y1 x2 y2 cvg (to_float F (int c)))"

text \<open>The body of the innermost loop.\<close>

definition execute_cell ::
  "'f::{plus,times,ord} float_conv \<Rightarrow> 'f ClusteredNonMaximumSuppression \<Rightarrow> (size_t \<Rightarrow> 'f)
     \<Rightarrow> (size_t \<Rightarrow> 'f) \<Rightarrow> 'f \<Rightarrow> nat \<Rightarrow> nat \<Rightarrow> nat \<Rightarrow> 'f float6 list list
     \<Rightarrow> 'f float6 list list" where
  "execute_cell F s coverage bboxes coverageThreshold c y x rects =
     (let cvg = coverage (of_nat c * gridSize s + of_nat y * gridDimX s + of_nat x)
      in if cvg > coverageThreshold
         then rects[c := mergeRect (rects ! c) (execute_rect F s bboxes cvg c y x)]
         else rects)"

function execute_x ::
  "'f::{plus,times,ord} float_conv \<Rightarrow> 'f ClusteredNonMaximumSuppression \<Rightarrow> (size_t \<Rightarrow> 'f)
     \<Rightarrow> (size_t \<Rightarrow> 'f) \<Rightarrow> 'f \<Rightarrow> nat \<Rightarrow> nat \<Rightarrow> nat \<Rightarrow> 'f float6 list list
     \<Rightarrow> 'f float6 list list" where
  "execute_x F s coverage bboxes coverageThreshold c y x rects =
     (if x < unat (gridDimX s)
      then execute_x F s coverage bboxes coverageThreshold c y (Suc x)
             (execute_cell F s coverage bboxes coverageThreshold c y x rects)
      else rects)"
  by pat_completeness auto
termination
  by (relation "measure (\<lambda>(F, s, coverage, bboxes, t, c, y, x, rects). unat (gridDimX s) - x)")
    auto

function execute_y ::
  "'f::{plus,times,ord} float_conv \<Rightarrow> 'f ClusteredNonMaximumSuppression \<Rightarrow> (size_t \<Rightarrow> 'f)
     \<Rightarrow> (size_t \<Rightarrow> 'f) \<Rightarrow> 'f \<Rightarrow> nat \<Rightarrow> nat \<Rightarrow> 'f float6 list list
     \<Rightarrow> 'f float6 list list" where
  "execute_y F s coverage bboxes coverageThreshold c y rects =
     (if y < unat (gridDimY s)
      then execute_y F s coverage bboxes coverageThreshold c (Suc y)
             (execute_x F s coverage bboxes coverageThreshold c y 0 rects)
      else rects)"
  by pat_completeness auto
termination
  by (relation "measure (\<lambda>(F, s, coverage, bboxes, t, c, y, rects). unat (gridDimY s) - y)")
    auto

function execute_c ::
  "'f::{plus,times,ord} float_conv \<Rightarrow> 'f ClusteredNonMaximumSuppression \<Rightarrow> (size_t \<Rightarrow> 'f)
     \<Rightarrow> (size_t \<Rightarrow> 'f) \<Rightarrow> size_t \<Rightarrow> 'f \<Rightarrow> nat \<Rightarrow> 'f float6 list list
     \<Rightarrow> 'f float6 list list" where
  "execute_c F s coverage bboxes nbClasses coverageThreshold c rects =
     (if c < unat nbClasses
      then execute_c F s coverage bboxes nbClasses coverageThreshold (Suc c)
             (execute_y F s coverage bboxes coverageThreshold c 0 rects)
      else rects)"
  by pat_completeness auto
termination
  by (relation "measure (\<lambda>(F, s, coverage, bboxes, n, t, c, rects). unat n - c)") auto

text \<open>The region built from one accumulated rectangle (the body of the output loop).\<close>

definition execute_region :: "'f float_conv \<Rightarrow> 'f float6 \<Rightarrow> 'f RTClassifiedRegionOfInterest" where
  "execute_region F r =
     (let classID = (ucast (to_size F (f6_u r)) :: cint);
          coverage = f6_v r;
          x1 = to_size F (f6_x r);
          y1 = to_size F (f6_y r);
          x2 = to_size F (f6_z r);
          y2 = to_size F (f6_w r)
      in \<lparr>roi_classID = classID, roi_confidence = coverage,
          roi_x = x1, roi_y = y1, roi_w = x2 - x1, roi_h = y2 - y1\<rparr>)"

text \<open>
  The two output loops; they return \<open>classRectangles\<close> and \<open>boxIndex\<close>. The argument
  \<open>rc\<close> of the inner loop is \<open>rects[c]\<close>.
\<close>

function execute_b ::
  "'f float_conv \<Rightarrow> 'f float6 list \<Rightarrow> size_t \<Rightarrow> nat \<Rightarrow> 'f RTClassifiedRegionOfInterest list
     \<Rightarrow> nat \<Rightarrow> 'f RTClassifiedRegionOfInterest list \<times> nat" where
  "execute_b F rc maxBoundingBoxes b classRectangles boxIndex =
     (if b < length rc \<and> boxIndex < unat maxBoundingBoxes
      then execute_b F rc maxBoundingBoxes (Suc b)
             (classRectangles @ [execute_region F (rc ! b)]) (Suc boxIndex)
      else (classRectangles, boxIndex))"
  by pat_completeness auto
termination
  by (relation "measure (\<lambda>(F, rc, m, b, out, boxIndex). length rc - b)") auto

function execute_out ::
  "'f float_conv \<Rightarrow> 'f float6 list list \<Rightarrow> size_t \<Rightarrow> size_t \<Rightarrow> nat
     \<Rightarrow> 'f RTClassifiedRegionOfInterest list \<Rightarrow> nat
     \<Rightarrow> 'f RTClassifiedRegionOfInterest list \<times> nat" where
  "execute_out F rects maxBoundingBoxes nbClasses c classRectangles boxIndex =
     (if c < unat nbClasses
      then execute_out F rects maxBoundingBoxes nbClasses (Suc c)
             (fst (execute_b F (rects ! c) maxBoundingBoxes 0 classRectangles boxIndex))
             (snd (execute_b F (rects ! c) maxBoundingBoxes 0 classRectangles boxIndex))
      else (classRectangles, boxIndex))"
  by pat_completeness auto
termination
  by (relation "measure (\<lambda>(F, rects, m, n, c, out, boxIndex). unat n - c)") auto

declare execute_x.simps [simp del] execute_y.simps [simp del] execute_c.simps [simp del]
  execute_b.simps [simp del] execute_out.simps [simp del]

text \<open>The clustering half of \<open>execute\<close>: the vector \<open>rects\<close> after the first loop nest.\<close>

definition execute_rects ::
  "'f::{plus,times,ord} float_conv \<Rightarrow> 'f ClusteredNonMaximumSuppression \<Rightarrow> (size_t \<Rightarrow> 'f)
     \<Rightarrow> (size_t \<Rightarrow> 'f) \<Rightarrow> size_t \<Rightarrow> 'f \<Rightarrow> 'f float6 list list" where
  "execute_rects F s coverage bboxes nbClasses coverageThreshold =
     execute_c F s coverage bboxes nbClasses coverageThreshold 0 (replicate (unat nbClasses) [])"

definition execute ::
  "'f::{plus,times,ord} float_conv \<Rightarrow> 'f ClusteredNonMaximumSuppression \<Rightarrow> (size_t \<Rightarrow> 'f)
     \<Rightarrow> (size_t \<Rightarrow> 'f) \<Rightarrow> size_t \<Rightarrow> 'f \<Rightarrow> 'f RTClassifiedRegionOfInterest list" where
  "execute F s coverage bboxes nbClasses coverageThreshold =
     (let rects = execute_rects F s coverage bboxes nbClasses coverageThreshold;
          maxBoundingBoxes = gridSize s * nbClasses
      in fst (execute_out F rects maxBoundingBoxes nbClasses 0 [] 0))"

text \<open>
  The two vector allocations at the head of \<open>execute\<close> can throw: \<open>rects.resize(nbClasses)\<close>
  throws \<open>std::length_error\<close> when \<open>nbClasses\<close> exceeds \<open>max_size()\<close> of the vector of
  vectors, and \<open>rects[c].reserve(gridSize)\<close>, reached in the first round of the class
  loop, throws it when \<open>gridSize\<close> exceeds \<open>max_size()\<close> of a vector of rectangles. Both
  bounds are fixed by the C++ library, not by the source, so they are the fields of a
  record. \<open>execute_result\<close> is \<open>execute\<close> with this exception, and \<open>execute\<close> above is
  what it returns when neither call throws. \<open>std::bad_alloc\<close>, which every allocation
  throws when the memory is exhausted, is not modelled.
\<close>

record vector_limits =
  max_size_classes :: nat  \<comment> \<open>\<open>max_size()\<close> of \<open>std::vector<std::vector<float6>>\<close>\<close>
  max_size_rects :: nat  \<comment> \<open>\<open>max_size()\<close> of \<open>std::vector<float6>\<close>\<close>

definition execute_result ::
  "vector_limits \<Rightarrow> 'f::{plus,times,ord} float_conv \<Rightarrow> 'f ClusteredNonMaximumSuppression
     \<Rightarrow> (size_t \<Rightarrow> 'f) \<Rightarrow> (size_t \<Rightarrow> 'f) \<Rightarrow> size_t \<Rightarrow> 'f
     \<Rightarrow> error + 'f RTClassifiedRegionOfInterest list" where
  "execute_result L F s coverage bboxes nbClasses coverageThreshold =
     (if max_size_classes L < unat nbClasses then Inl LengthError
      else if 0 < unat nbClasses \<and> max_size_rects L < unat (gridSize s) then Inl LengthError
      else Inr (execute F s coverage bboxes nbClasses coverageThreshold))"

section \<open>Auxiliary definitions\<close>

subsection \<open>The loops of execute, as lists\<close>

text \<open>
  The definitions of this section are not functions of the source: they name what the
  loops of \<open>execute\<close> are proved to compute. \<open>grid_cells\<close> lists the cells \<open>(y, x)\<close> of
  the grid in row-major order, \<open>cell_coverage\<close> reads the coverage of a cell for a class,
  \<open>candidates\<close> lists the rectangles of the cells of a class above the threshold, in
  that order, and \<open>cluster\<close> merges a list of rectangles one after the other into the
  accumulated ones.
\<close>

definition grid_cells :: "'f ClusteredNonMaximumSuppression \<Rightarrow> (nat \<times> nat) list" where
  "grid_cells s = List.product [0..<unat (gridDimY s)] [0..<unat (gridDimX s)]"

definition cell_coverage ::
  "'f ClusteredNonMaximumSuppression \<Rightarrow> (size_t \<Rightarrow> 'f) \<Rightarrow> nat \<Rightarrow> nat \<times> nat \<Rightarrow> 'f" where
  "cell_coverage s coverage c cell =
     coverage (of_nat c * gridSize s + of_nat (fst cell) * gridDimX s + of_nat (snd cell))"

definition candidates ::
  "'f::{plus,times,ord} float_conv \<Rightarrow> 'f ClusteredNonMaximumSuppression \<Rightarrow> (size_t \<Rightarrow> 'f)
     \<Rightarrow> (size_t \<Rightarrow> 'f) \<Rightarrow> 'f \<Rightarrow> nat \<Rightarrow> 'f float6 list" where
  "candidates F s coverage bboxes coverageThreshold c =
     map (\<lambda>cell. execute_rect F s bboxes (cell_coverage s coverage c cell) c (fst cell) (snd cell))
       (filter (\<lambda>cell. cell_coverage s coverage c cell > coverageThreshold) (grid_cells s))"

definition cluster :: "'f::ord float6 list \<Rightarrow> 'f float6 list \<Rightarrow> 'f float6 list" where
  "cluster acc cands = fold (\<lambda>rect rects. mergeRect rects rect) cands acc"

text \<open>What one cell does to the accumulated rectangles of its class.\<close>

definition cell_step ::
  "'f::{plus,times,ord} float_conv \<Rightarrow> 'f ClusteredNonMaximumSuppression \<Rightarrow> (size_t \<Rightarrow> 'f)
     \<Rightarrow> (size_t \<Rightarrow> 'f) \<Rightarrow> 'f \<Rightarrow> nat \<Rightarrow> nat \<times> nat \<Rightarrow> 'f float6 list \<Rightarrow> 'f float6 list" where
  "cell_step F s coverage bboxes t c cell acc =
     (if cell_coverage s coverage c cell > t
      then mergeRect acc (execute_rect F s bboxes (cell_coverage s coverage c cell) c (fst cell) (snd cell))
      else acc)"

text \<open>
  \<open>created acc cands\<close> lists the candidates that create a rectangle when \<open>cands\<close> are
  merged one after the other into \<open>acc\<close>: those that overlap no rectangle accumulated
  when their turn comes, which \<open>mergeRect\<close> therefore appends. \<open>grown_from a rect\<close> says
  that the accumulated rectangle \<open>a\<close> has the coverage and the class of \<open>rect\<close> and
  encloses it.
\<close>

fun created :: "'f::ord float6 list \<Rightarrow> 'f float6 list \<Rightarrow> 'f float6 list" where
  "created acc [] = []"
| "created acc (rect # cands) =
     (if list_ex (\<lambda>a. rectOverlap a rect) acc
      then created (mergeRect acc rect) cands
      else rect # created (mergeRect acc rect) cands)"

definition grown_from :: "'f::ord float6 \<Rightarrow> 'f float6 \<Rightarrow> bool" where
  "grown_from a rect =
     (f6_v a = f6_v rect \<and> f6_u a = f6_u rect
      \<and> f6_x a \<le> f6_x rect \<and> f6_y a \<le> f6_y rect
      \<and> f6_z rect \<le> f6_z a \<and> f6_w rect \<le> f6_w a)"

subsection \<open>The states of the suppressor\<close>

text \<open>
  \<open>ready\<close>: the three sizes have been supplied. \<open>unready_zero\<close> and \<open>scaled\<close> are the
  two invariants of the setters: before the three sizes are supplied the scale factors
  are the zeros of the constructor (and the grid dimensions and \<open>gridSize\<close> are zero until
  \<open>setupGrid\<close> is called), afterwards they are the quotients \<open>calculateScale\<close> computes from the sizes
  the object holds. \<open>set_sizes\<close> is what a setter stores before it tests the flags, and
  \<open>with_sizes s\<close> is the object \<open>s\<close> once it holds the three given sizes.
\<close>

definition ready :: "'f ClusteredNonMaximumSuppression \<Rightarrow> bool" where
  "ready s = (imageReady s \<and> inputReady s \<and> gridReady s)"

definition unready_zero :: "'f::zero ClusteredNonMaximumSuppression \<Rightarrow> bool" where
  "unready_zero s =
     ((ready s \<or> imageScaleX s = 0 \<and> imageScaleY s = 0 \<and> cellWidth s = 0 \<and> cellHeight s = 0)
      \<and> (gridReady s \<or> gridDimX s = 0 \<and> gridDimY s = 0 \<and> gridSize s = 0))"

definition scaled :: "'f float_conv \<Rightarrow> 'f ClusteredNonMaximumSuppression \<Rightarrow> bool" where
  "scaled F s =
     (imageDimX s \<noteq> 0 \<and> imageDimY s \<noteq> 0 \<and> gridDimX s \<noteq> 0 \<and> gridDimY s \<noteq> 0
      \<and> imageScaleX s = to_float F (uint (inputDimX s div imageDimX s))
      \<and> imageScaleY s = to_float F (uint (inputDimY s div imageDimY s))
      \<and> cellWidth s = inputDimX s div gridDimX s
      \<and> cellHeight s = inputDimY s div gridDimY s)"

definition with_sizes ::
  "'f ClusteredNonMaximumSuppression \<Rightarrow> size_t \<Rightarrow> size_t \<Rightarrow> size_t \<Rightarrow> size_t \<Rightarrow> size_t \<Rightarrow> size_t
     \<Rightarrow> 'f ClusteredNonMaximumSuppression" where
  "with_sizes s iw ih nw nh gw gh =
     s\<lparr>imageDimX := iw, imageDimY := ih, inputDimX := nw, inputDimY := nh,
       gridDimX := gw, gridDimY := gh, gridSize := gw * gh,
       imageReady := True, inputReady := True, gridReady := True\<rparr>"

fun set_sizes ::
  "setter \<Rightarrow> 'f ClusteredNonMaximumSuppression \<Rightarrow> 'f ClusteredNonMaximumSuppression" where
  "set_sizes (SetupImage dimX dimY) s = s\<lparr>imageDimX := dimX, imageDimY := dimY, imageReady := True\<rparr>"
| "set_sizes (SetupInput dimX dimY) s = s\<lparr>inputDimX := dimX, inputDimY := dimY, inputReady := True\<rparr>"
| "set_sizes (SetupGrid dimX dimY) s =
     s\<lparr>gridDimX := dimX, gridDimY := dimY, gridSize := dimX * dimY, gridReady := True\<rparr>"

text \<open>The four scale factors of an object, the two cell sizes converted to \<open>float\<close>.\<close>

definition scale_factors ::
  "'f float_conv \<Rightarrow> 'f ClusteredNonMaximumSuppression \<Rightarrow> 'f \<times> 'f \<times> 'f \<times> 'f" where
  "scale_factors F s =
     (imageScaleX s, imageScaleY s,
      to_float F (uint (cellWidth s)), to_float F (uint (cellHeight s)))"

subsection \<open>What the specification asks for\<close>

text \<open>
  The two definitions of this section follow the words of the specification, not the
  source. \<open>spec_execute\<close>: \<open>execute\<close> fails with \<open>NotConfiguredError\<close> until the three
  sizes have been supplied. \<open>exact_scale_factors\<close>: the four scale factors are the exact
  quotients of the sizes (over the rationals).
\<close>

definition spec_execute ::
  "'f::{plus,times,ord} float_conv \<Rightarrow> 'f ClusteredNonMaximumSuppression \<Rightarrow> (size_t \<Rightarrow> 'f)
     \<Rightarrow> (size_t \<Rightarrow> 'f) \<Rightarrow> size_t \<Rightarrow> 'f \<Rightarrow> error + 'f RTClassifiedRegionOfInterest list" where
  "spec_execute F s coverage bboxes nbClasses coverageThreshold =
     (if imageReady s \<and> inputReady s \<and> gridReady s
      then Inr (execute F s coverage bboxes nbClasses coverageThreshold)
      else Inl NotConfiguredError)"

definition exact_scale_factors ::
  "rat ClusteredNonMaximumSuppression \<Rightarrow> rat \<times> rat \<times> rat \<times> rat" where
  "exact_scale_factors s =
     (of_nat (unat (inputDimX s)) / of_nat (unat (imageDimX s)),
      of_nat (unat (inputDimY s)) / of_nat (unat (imageDimY s)),
      of_nat (unat (inputDimX s)) / of_nat (unat (gridDimX s)),
      of_nat (unat (inputDimY s)) / of_nat (unat (gridDimY s)))"

subsection \<open>Concrete inputs\<close>

text \<open>
  For the evaluation of the functions on concrete inputs \<open>float\<close> is read as the
  rational numbers: \<open>exact_conv\<close> converts an integer to the same rational and a
  rational to the \<open>size_t\<close> of its integer part (rounding towards zero). \<open>float_array xs\<close>
  is a \<open>float*\<close> that points to the values \<open>xs\<close>, followed by zeros. \<open>demo_limits\<close> are
  the bounds of a library that lets a vector hold \<open>2^63 - 1\<close> bytes, for elements of 24
  bytes.

  \<open>demo_grid\<close> is the object of the end-to-end scenario of the specification: a grid of
  2 by 2 cells with cell sizes and image scales 1, which the setters produce from image,
  input and grid size 2 by 2. \<open>demo_coverage\<close> is the coverage of that scenario,
  \<open>demo_quiet\<close> a coverage below the threshold one half everywhere, \<open>demo_bboxes\<close> the
  box offsets, all zero. \<open>demo_adjacent\<close> and \<open>demo_boxes\<close> make the rectangles of the
  two cells of the first row share an edge: the coverage is above the threshold in these
  two cells, and every cell has the offsets 0, 0, 1, 1. \<open>demo_two_classes\<close> is a
  coverage for two classes: that of \<open>demo_coverage\<close> for class 0, and for class 1 one
  cell above the threshold, the second of the first row. \<open>demo_wide\<close> is the object
  after \<open>setupGrid\<close> only, for a grid of \<open>2^30\<close> by \<open>2^30\<close> cells. \<open>demo_unready\<close> is the object after \<open>setupInput\<close> and
  \<open>setupGrid\<close> only, \<open>demo_rescaled\<close> is \<open>demo_grid\<close> after the image size is set again,
  to 1 by 1, and \<open>demo_halved\<close> the object for image size 2 by 2, input size 4 by 4 and
  grid size 3 by 3.
\<close>

definition demo_limits :: vector_limits where
  "demo_limits =
     \<lparr>max_size_classes = 384307168202282325, max_size_rects = 384307168202282325\<rparr>"

definition exact_conv :: "rat float_conv" where
  "exact_conv =
     \<lparr>to_float = of_int,
      to_size = (\<lambda>q. word_of_int (if 0 \<le> q then \<lfloor>q\<rfloor> else - \<lfloor>- q\<rfloor>))\<rparr>"

definition float_array :: "'f::zero list \<Rightarrow> size_t \<Rightarrow> 'f" where
  "float_array xs i = (if unat i < length xs then xs ! unat i else 0)"

definition demo_grid :: "rat ClusteredNonMaximumSuppression" where
  "demo_grid =
     \<lparr>imageDimX = 2, imageDimY = 2, imageScaleX = 1, imageScaleY = 1,
      inputDimX = 2, inputDimY = 2, gridDimX = 2, gridDimY = 2,
      cellWidth = 1, cellHeight = 1, gridSize = 4,
      imageReady = True, inputReady = True, gridReady = True\<rparr>"

definition demo_coverage :: "size_t \<Rightarrow> rat" where
  "demo_coverage = float_array [9/10, 1/10, 1/10, 9/10]"

definition demo_quiet :: "size_t \<Rightarrow> rat" where
  "demo_quiet = float_array [1/10, 1/10, 1/10, 1/10]"

definition demo_bboxes :: "size_t \<Rightarrow> rat" where
  "demo_bboxes = float_array []"

definition demo_adjacent :: "size_t \<Rightarrow> rat" where
  "demo_adjacent = float_array [3/5, 9/10, 1/10, 1/10]"

definition demo_boxes :: "size_t \<Rightarrow> rat" where
  "demo_boxes = float_array [0, 0, 0, 0, 0, 0, 0, 0, 1, 1, 1, 1, 1, 1, 1, 1]"

definition demo_two_classes :: "size_t \<Rightarrow> rat" where
  "demo_two_classes = float_array [9/10, 1/10, 1/10, 9/10, 1/10, 4/5, 1/10, 1/10]"

definition demo_wide :: "rat ClusteredNonMaximumSuppression" where
  "demo_wide =
     \<lparr>imageDimX = 0, imageDimY = 0, imageScaleX = 0, imageScaleY = 0,
      inputDimX = 0, inputDimY = 0, gridDimX = 1073741824, gridDimY = 1073741824,
      cellWidth = 0, cellHeight = 0, gridSize = 1152921504606846976,
      imageReady = False, inputReady = False, gridReady = True\<rparr>"

definition demo_unready :: "rat ClusteredNonMaximumSuppression" where
  "demo_unready =
     \<lparr>imageDimX = 0, imageDimY = 0, imageScaleX = 0, imageScaleY = 0,
      inputDimX = 2, inputDimY = 2, gridDimX = 2, gridDimY = 2,
      cellWidth = 0, cellHeight = 0, gridSize = 4,
      imageReady = False, inputReady = True, gridReady = True\<rparr>"

definition demo_rescaled :: "rat ClusteredNonMaximumSuppression" where
  "demo_rescaled = demo_grid\<lparr>imageDimX := 1, imageDimY := 1, imageScaleX := 2, imageScaleY := 2\<rparr>"

definition demo_halved :: "rat ClusteredNonMaximumSuppression" where
  "demo_halved =
     \<lparr>imageDimX = 2, imageDimY = 2, imageScaleX = 2, imageScaleY = 2,
      inputDimX = 4, inputDimY = 4, gridDimX = 3, gridDimY = 3,
      cellWidth = 1, cellHeight = 1, gridSize = 9,
      imageReady = True, inputReady = True, gridReady = True\<rparr>"

section \<open>Role swap\<close>

text \<open>
  C9. \<open>swapIO\<close> exchanges the two cache pointers and nothing else: the heap, and so the
  content of every cache object, is unchanged, the input pointer becomes the old output
  pointer and the other way round, and two swaps give back the state they started from,
  pointer for pointer.
\<close>

theorem swapIO_involution:
  "heap (swapIO w) = heap w
   \<and> inputCache (preprocessor (swapIO w)) = outputCache (preprocessor w)
   \<and> outputCache (preprocessor (swapIO w)) = inputCache (preprocessor w)
   \<and> swapIO (swapIO w) = w"
  by (simp add: swapIO_def Let_def)

theorem swapIO_involution_witness:
  "swapIO \<lparr>heap = Suc, preprocessor = \<lparr>inputCache = 0, outputCache = 1\<rparr>\<rparr> =
     \<lparr>heap = Suc, preprocessor = \<lparr>inputCache = 1, outputCache = 0\<rparr>\<rparr>
   \<and> swapIO (swapIO \<lparr>heap = Suc, preprocessor = \<lparr>inputCache = 0, outputCache = 1\<rparr>\<rparr>) =
       \<lparr>heap = Suc, preprocessor = \<lparr>inputCache = 0, outputCache = 1\<rparr>\<rparr>"
  using swapIO_involution
    [of "\<lparr>heap = Suc, preprocessor = \<lparr>inputCache = 0, outputCache = 1\<rparr>\<rparr>"]
  by (simp add: swapIO_def)

section \<open>Merging one rectangle\<close>

lemma mergeRect_loop_drop:
  "r \<le> length rects \<Longrightarrow>
   mergeRect_loop rects rect r =
     (case dropWhile (\<lambda>a. \<not> rectOverlap a rect) (drop r rects) of
        [] \<Rightarrow> (rects, False)
      | a # post \<Rightarrow>
          (take r rects @ takeWhile (\<lambda>a. \<not> rectOverlap a rect) (drop r rects)
             @ mergeRect_assign a rect # post, True))"
proof (induction rects rect r rule: mergeRect_loop.induct)
  case (1 rects rect r)
  show ?case
  proof (cases "r < length rects")
    case False
    with "1.prems" show ?thesis
      by (simp add: mergeRect_loop.simps)
  next
    case True
    then have d: "drop r rects = rects ! r # drop (Suc r) rects"
      by (simp add: Cons_nth_drop_Suc)
    show ?thesis
    proof (cases "rectOverlap (rects ! r) rect")
      case True
      with \<open>r < length rects\<close> d show ?thesis
        by (simp add: mergeRect_loop.simps upd_conv_take_nth_drop)
    next
      case False
      have t: "take (Suc r) rects = take r rects @ [rects ! r]"
        using \<open>r < length rects\<close> by (simp add: take_Suc_conv_app_nth)
      from False \<open>r < length rects\<close> have
        "mergeRect_loop rects rect r = mergeRect_loop rects rect (Suc r)"
        by (simp add: mergeRect_loop.simps)
      also have "\<dots> =
         (case dropWhile (\<lambda>a. \<not> rectOverlap a rect) (drop (Suc r) rects) of
            [] \<Rightarrow> (rects, False)
          | a # post \<Rightarrow>
              (take (Suc r) rects @ takeWhile (\<lambda>a. \<not> rectOverlap a rect) (drop (Suc r) rects)
                 @ mergeRect_assign a rect # post, True))"
        using "1.IH" \<open>r < length rects\<close> False by simp
      finally show ?thesis
        by (cases "dropWhile (\<lambda>a. \<not> rectOverlap a rect) (drop (Suc r) rects)")
          (simp_all add: d t False del: dropWhile_eq_Nil_conv)
    qed
  qed
qed

lemma mergeRect_first_match:
  "mergeRect rects rect =
     (case dropWhile (\<lambda>a. \<not> rectOverlap a rect) rects of
        [] \<Rightarrow> rects @ [rect]
      | a # post \<Rightarrow>
          takeWhile (\<lambda>a. \<not> rectOverlap a rect) rects @ mergeRect_assign a rect # post)"
  by (cases "dropWhile (\<lambda>a. \<not> rectOverlap a rect) rects")
    (simp_all add: mergeRect_def mergeRect_loop_drop del: dropWhile_eq_Nil_conv)

lemma mergeRect_assign_union:
  fixes a :: "'f::linorder float6"
  shows "mergeRect_assign a rect = unionRect a rect"
  by (simp add: mergeRect_assign_def unionRect_def Let_def min_def max_def)

text \<open>
  C2. The merge step scans the accumulated rectangles in insertion order. The rectangles
  before the first overlapping one (\<open>takeWhile\<close>) and after it (\<open>post\<close>) are unchanged;
  the first overlapping one is replaced by the component-wise union with the candidate
  (minimum of the left and of the top edges, maximum of the right and of the bottom
  edges); when no accumulated rectangle overlaps, the candidate is appended. The overlap
  test is the one of the specification. For the minimum and the maximum the comparison
  of \<open>float\<close> is taken to be a linear order, as it is on the values that are not NaN.
\<close>

theorem mergeRect_first_overlap_union:
  fixes rects :: "'f::linorder float6 list"
  shows "mergeRect rects rect =
           (case dropWhile (\<lambda>a. \<not> rectOverlap a rect) rects of
              [] \<Rightarrow> rects @ [rect]
            | a # post \<Rightarrow>
                takeWhile (\<lambda>a. \<not> rectOverlap a rect) rects @ unionRect a rect # post)
         \<and> unionRect a rect =
             \<lparr>f6_x = min (f6_x a) (f6_x rect), f6_y = min (f6_y a) (f6_y rect),
              f6_z = max (f6_z a) (f6_z rect), f6_w = max (f6_w a) (f6_w rect),
              f6_v = f6_v a, f6_u = f6_u a\<rparr>
         \<and> rectOverlap a rect =
             (\<not> (f6_x rect > f6_z a \<or> f6_z rect < f6_x a \<or> f6_y rect > f6_w a \<or> f6_w rect < f6_y a))"
proof -
  have "mergeRect rects rect =
           (case dropWhile (\<lambda>a. \<not> rectOverlap a rect) rects of
              [] \<Rightarrow> rects @ [rect]
            | a # post \<Rightarrow>
                takeWhile (\<lambda>a. \<not> rectOverlap a rect) rects @ unionRect a rect # post)"
    unfolding mergeRect_first_match mergeRect_assign_union ..
  moreover have "unionRect a rect =
             \<lparr>f6_x = min (f6_x a) (f6_x rect), f6_y = min (f6_y a) (f6_y rect),
              f6_z = max (f6_z a) (f6_z rect), f6_w = max (f6_w a) (f6_w rect),
              f6_v = f6_v a, f6_u = f6_u a\<rparr>"
    by (simp add: unionRect_def)
  moreover have "rectOverlap a rect =
             (\<not> (f6_x rect > f6_z a \<or> f6_z rect < f6_x a \<or> f6_y rect > f6_w a \<or> f6_w rect < f6_y a))"
    by (simp only: rectOverlap_def)
  ultimately show ?thesis by blast
qed

theorem mergeRect_first_overlap_union_witness:
  "mergeRect [make_float6 0 0 1 1 (3/5) 0, make_float6 2 0 3 1 (7/10) (0::rat)]
     (make_float6 1 0 2 1 (9/10) 0) =
     [make_float6 0 0 2 1 (3/5) 0, make_float6 2 0 3 1 (7/10) 0]
   \<and> mergeRect [make_float6 0 0 1 1 (3/5) 0, make_float6 2 0 3 1 (7/10) (0::rat)]
       (make_float6 5 5 6 6 (9/10) 0) =
       [make_float6 0 0 1 1 (3/5) 0, make_float6 2 0 3 1 (7/10) 0, make_float6 5 5 6 6 (9/10) 0]"
proof -
  let ?rects = "[make_float6 0 0 1 1 (3/5) 0, make_float6 2 0 3 1 (7/10) (0::rat)]"
  let ?near = "make_float6 1 0 2 1 (9/10) (0::rat)"
  let ?far = "make_float6 5 5 6 6 (9/10) (0::rat)"
  have 1: "(case dropWhile (\<lambda>a. \<not> rectOverlap a ?near) ?rects of
              [] \<Rightarrow> ?rects @ [?near]
            | a # post \<Rightarrow>
                takeWhile (\<lambda>a. \<not> rectOverlap a ?near) ?rects @ unionRect a ?near # post) =
           [make_float6 0 0 2 1 (3/5) 0, make_float6 2 0 3 1 (7/10) 0]"
    by code_simp
  have 2: "(case dropWhile (\<lambda>a. \<not> rectOverlap a ?far) ?rects of
              [] \<Rightarrow> ?rects @ [?far]
            | a # post \<Rightarrow>
                takeWhile (\<lambda>a. \<not> rectOverlap a ?far) ?rects @ unionRect a ?far # post) =
           [make_float6 0 0 1 1 (3/5) 0, make_float6 2 0 3 1 (7/10) 0, ?far]"
    by code_simp
  from mergeRect_first_overlap_union [of ?rects ?near, THEN conjunct1] 1
  have "mergeRect ?rects ?near = [make_float6 0 0 2 1 (3/5) 0, make_float6 2 0 3 1 (7/10) 0]"
    by (rule trans)
  moreover from mergeRect_first_overlap_union [of ?rects ?far, THEN conjunct1] 2
  have "mergeRect ?rects ?far =
          [make_float6 0 0 1 1 (3/5) 0, make_float6 2 0 3 1 (7/10) 0, ?far]"
    by (rule trans)
  ultimately show ?thesis by blast
qed

section \<open>The loops of execute\<close>

lemma execute_x_fold:
  "execute_x F s coverage bboxes t c y x rects =
     fold (\<lambda>x'. execute_cell F s coverage bboxes t c y x') [x..<unat (gridDimX s)] rects"
proof (induction F s coverage bboxes t c y x rects rule: execute_x.induct)
  case (1 F s coverage bboxes t c y x rects)
  show ?case
  proof (cases "x < unat (gridDimX s)")
    case True
    then show ?thesis
      using "1.IH" by (subst execute_x.simps) (simp add: upt_conv_Cons)
  next
    case False
    then show ?thesis
      by (subst execute_x.simps) simp
  qed
qed

lemma execute_y_fold:
  "execute_y F s coverage bboxes t c y rects =
     fold (\<lambda>y'. execute_x F s coverage bboxes t c y' 0) [y..<unat (gridDimY s)] rects"
proof (induction F s coverage bboxes t c y rects rule: execute_y.induct)
  case (1 F s coverage bboxes t c y rects)
  show ?case
  proof (cases "y < unat (gridDimY s)")
    case True
    then show ?thesis
      using "1.IH" by (subst execute_y.simps) (simp add: upt_conv_Cons)
  next
    case False
    then show ?thesis
      by (subst execute_y.simps) simp
  qed
qed

lemma execute_c_fold:
  "execute_c F s coverage bboxes n t c rects =
     fold (\<lambda>c'. execute_y F s coverage bboxes t c' 0) [c..<unat n] rects"
proof (induction F s coverage bboxes n t c rects rule: execute_c.induct)
  case (1 F s coverage bboxes n t c rects)
  show ?case
  proof (cases "c < unat n")
    case True
    then show ?thesis
      using "1.IH" by (subst execute_c.simps) (simp add: upt_conv_Cons)
  next
    case False
    then show ?thesis
      by (subst execute_c.simps) simp
  qed
qed

lemma fold_product:
  "fold f (List.product xs ys) a = fold (\<lambda>x. fold (\<lambda>y. f (x, y)) ys) xs a"
  by (induction xs arbitrary: a) (simp_all add: fold_map comp_def)

lemma execute_cell_step:
  "execute_cell F s coverage bboxes t c y x rects =
     rects[c := cell_step F s coverage bboxes t c (y, x) (rects ! c)]"
  by (simp add: execute_cell_def cell_step_def cell_coverage_def Let_def)

lemma fold_list_update:
  "fold (\<lambda>k rs. rs[c := g k (rs ! c)]) ks rects = rects[c := fold g ks (rects ! c)]"
proof (induction ks arbitrary: rects)
  case Nil
  show ?case by simp
next
  case (Cons k ks)
  show ?case
  proof (cases "c < length rects")
    case True
    then show ?thesis by (simp add: Cons.IH)
  next
    case False
    then show ?thesis by (simp add: Cons.IH list_update_beyond)
  qed
qed

lemma fold_cell_step:
  "fold (cell_step F s coverage bboxes t c) cells acc =
     cluster acc
       (map (\<lambda>cell. execute_rect F s bboxes (cell_coverage s coverage c cell) c (fst cell) (snd cell))
          (filter (\<lambda>cell. cell_coverage s coverage c cell > t) cells))"
  by (induction cells arbitrary: acc) (simp_all add: cell_step_def cluster_def)

lemma execute_y_class:
  "execute_y F s coverage bboxes t c 0 rects =
     rects[c := cluster (rects ! c) (candidates F s coverage bboxes t c)]"
proof -
  have "execute_y F s coverage bboxes t c 0 rects =
          fold (\<lambda>cell rs. rs[c := cell_step F s coverage bboxes t c cell (rs ! c)])
            (grid_cells s) rects"
    by (simp add: execute_y_fold execute_x_fold [abs_def] grid_cells_def fold_product
        execute_cell_step [abs_def])
  then show ?thesis
    by (simp add: fold_list_update fold_cell_step candidates_def)
qed

lemma fold_classes:
  "length rects = n \<Longrightarrow> k \<le> n \<Longrightarrow>
   fold (\<lambda>c rs. rs[c := h c (rs ! c)]) [0..<k] rects =
     map (\<lambda>c. h c (rects ! c)) [0..<k] @ drop k rects"
proof (induction k)
  case 0
  show ?case by simp
next
  case (Suc k)
  then have "k < length (map (\<lambda>c. h c (rects ! c)) [0..<k] @ drop k rects)" by simp
  with Suc show ?case
    by (simp add: list_update_append nth_append Cons_nth_drop_Suc [symmetric]
        upd_conv_take_nth_drop)
qed

lemma execute_rects_classes:
  "execute_rects F s coverage bboxes n t =
     map (\<lambda>c. cluster [] (candidates F s coverage bboxes t c)) [0..<unat n]"
proof -
  have "execute_rects F s coverage bboxes n t =
          fold (\<lambda>c rs. rs[c := cluster (rs ! c) (candidates F s coverage bboxes t c)])
            [0..<unat n] (replicate (unat n) [])"
    by (simp add: execute_rects_def execute_c_fold execute_y_class [abs_def])
  also have "\<dots> = map (\<lambda>c. cluster (replicate (unat n) [] ! c) (candidates F s coverage bboxes t c))
                     [0..<unat n] @ drop (unat n) (replicate (unat n) [])"
    by (rule fold_classes [OF _ order_refl]) simp
  also have "\<dots> = map (\<lambda>c. cluster [] (candidates F s coverage bboxes t c)) [0..<unat n]"
    by simp
  finally show ?thesis .
qed


lemma execute_b_take:
  "execute_b F rc m b out boxIndex =
     (out @ map (execute_region F) (take (unat m - boxIndex) (drop b rc)),
      boxIndex + min (length rc - b) (unat m - boxIndex))"
proof (induction F rc m b out boxIndex rule: execute_b.induct)
  case (1 F rc m b out boxIndex)
  show ?case
  proof (cases "b < length rc \<and> boxIndex < unat m")
    case True
    then have d: "drop b rc = rc ! b # drop (Suc b) rc"
      by (simp add: Cons_nth_drop_Suc)
    from True obtain k where k: "unat m - boxIndex = Suc k"
      by (cases "unat m - boxIndex") auto
    then have k': "unat m - Suc boxIndex = k" by simp
    from True have "execute_b F rc m b out boxIndex =
        execute_b F rc m (Suc b) (out @ [execute_region F (rc ! b)]) (Suc boxIndex)"
      by (subst execute_b.simps) simp
    also have "\<dots> =
        ((out @ [execute_region F (rc ! b)])
           @ map (execute_region F) (take (unat m - Suc boxIndex) (drop (Suc b) rc)),
         Suc boxIndex + min (length rc - Suc b) (unat m - Suc boxIndex))"
      using "1.IH" True by simp
    finally show ?thesis
      using True by (simp add: d k k' min_def) arith
  next
    case False
    then show ?thesis
      by (subst execute_b.simps) auto
  qed
qed

lemma execute_out_take:
  "execute_out F rects m n c out boxIndex =
     (out @ map (execute_region F)
              (take (unat m - boxIndex) (concat (map (\<lambda>i. rects ! i) [c..<unat n]))),
      boxIndex + min (length (concat (map (\<lambda>i. rects ! i) [c..<unat n]))) (unat m - boxIndex))"
proof (induction F rects m n c out boxIndex rule: execute_out.induct)
  case (1 F rects m n c out boxIndex)
  show ?case
  proof (cases "c < unat n")
    case True
    let ?rc = "rects ! c"
    let ?rest = "concat (map (\<lambda>i. rects ! i) [Suc c..<unat n])"
    let ?out = "out @ map (execute_region F) (take (unat m - boxIndex) ?rc)"
    let ?bi = "boxIndex + min (length ?rc) (unat m - boxIndex)"
    have b: "execute_b F ?rc m 0 out boxIndex = (?out, ?bi)"
      by (simp add: execute_b_take)
    have "execute_out F rects m n c out boxIndex = execute_out F rects m n (Suc c) ?out ?bi"
      using True by (subst execute_out.simps) (simp add: b)
    also have "\<dots> =
        (?out @ map (execute_region F) (take (unat m - ?bi) ?rest),
         ?bi + min (length ?rest) (unat m - ?bi))"
      using "1.IH" [OF True] by (simp add: b)
    finally show ?thesis
      using True by (auto simp add: upt_conv_Cons min_def)
  next
    case False
    then show ?thesis
      by (subst execute_out.simps) simp
  qed
qed

lemma execute_regions:
  "execute F s coverage bboxes n t =
     map (execute_region F)
       (take (unat (gridSize s * n)) (concat (execute_rects F s coverage bboxes n t)))"
proof -
  have "length (execute_rects F s coverage bboxes n t) = unat n"
    by (simp add: execute_rects_classes)
  then have "map (\<lambda>i. execute_rects F s coverage bboxes n t ! i) [0..<unat n] =
               execute_rects F s coverage bboxes n t"
    by (metis map_nth)
  then show ?thesis
    by (simp add: execute_def Let_def execute_out_take)
qed

section \<open>Accumulated rectangles\<close>

lemma mergeRect_no_overlap:
  "\<not> list_ex (\<lambda>a. rectOverlap a rect) rects \<Longrightarrow> mergeRect rects rect = rects @ [rect]"
proof -
  assume "\<not> list_ex (\<lambda>a. rectOverlap a rect) rects"
  then have "dropWhile (\<lambda>a. \<not> rectOverlap a rect) rects = []"
    by (simp add: list_ex_iff)
  then show ?thesis
    by (simp add: mergeRect_first_match del: dropWhile_eq_Nil_conv)
qed

lemma mergeRect_overlap:
  assumes "list_ex (\<lambda>a. rectOverlap a rect) rects"
  obtains pre a post where "rects = pre @ a # post"
    and "mergeRect rects rect = pre @ mergeRect_assign a rect # post"
    and "rectOverlap a rect" and "\<not> list_ex (\<lambda>a. rectOverlap a rect) pre"
proof -
  let ?P = "\<lambda>a. \<not> rectOverlap a rect"
  from assms have "dropWhile ?P rects \<noteq> []"
    by (simp add: list_ex_iff)
  then obtain a post where d: "dropWhile ?P rects = a # post"
    by (cases "dropWhile ?P rects") auto
  have 1: "rects = takeWhile ?P rects @ a # post"
    using takeWhile_dropWhile_id [of ?P rects] d by simp
  have 2: "mergeRect rects rect = takeWhile ?P rects @ mergeRect_assign a rect # post"
    by (simp add: mergeRect_first_match d)
  have 3: "rectOverlap a rect"
    using hd_dropWhile [of ?P rects] d by simp
  have 4: "\<not> list_ex (\<lambda>a. rectOverlap a rect) (takeWhile ?P rects)"
    by (auto simp add: list_ex_iff dest: set_takeWhileD)
  from 1 2 3 4 show thesis by (rule that)
qed

lemma mergeRect_assign_v [simp]: "f6_v (mergeRect_assign a rect) = f6_v a"
  by (simp add: mergeRect_assign_def Let_def)

lemma mergeRect_assign_u [simp]: "f6_u (mergeRect_assign a rect) = f6_u a"
  by (simp add: mergeRect_assign_def Let_def)

lemma mergeRect_map_v:
  "map f6_v (mergeRect rects rect) =
     map f6_v rects @ (if list_ex (\<lambda>a. rectOverlap a rect) rects then [] else [f6_v rect])"
proof (cases "list_ex (\<lambda>a. rectOverlap a rect) rects")
  case True
  then show ?thesis by (rule mergeRect_overlap) simp
next
  case False
  then show ?thesis by (simp add: mergeRect_no_overlap)
qed

lemma mergeRect_map_u:
  "map f6_u (mergeRect rects rect) =
     map f6_u rects @ (if list_ex (\<lambda>a. rectOverlap a rect) rects then [] else [f6_u rect])"
proof (cases "list_ex (\<lambda>a. rectOverlap a rect) rects")
  case True
  then show ?thesis by (rule mergeRect_overlap) simp
next
  case False
  then show ?thesis by (simp add: mergeRect_no_overlap)
qed

lemma cluster_Cons: "cluster acc (rect # cands) = cluster (mergeRect acc rect) cands"
  by (simp add: cluster_def)

lemma cluster_Nil: "cluster acc [] = acc"
  by (simp add: cluster_def)

lemma cluster_map_v: "map f6_v (cluster acc cands) = map f6_v acc @ map f6_v (created acc cands)"
  by (induction cands arbitrary: acc) (simp_all add: cluster_Cons cluster_Nil mergeRect_map_v)

lemma cluster_map_u: "map f6_u (cluster acc cands) = map f6_u acc @ map f6_u (created acc cands)"
  by (induction cands arbitrary: acc) (simp_all add: cluster_Cons cluster_Nil mergeRect_map_u)

lemma subseq_created: "subseq (created acc cands) cands"
  by (induction cands arbitrary: acc) (auto intro: list_emb_Cons)

lemma length_mergeRect: "length (mergeRect rects rect) \<le> Suc (length rects)"
proof (cases "list_ex (\<lambda>a. rectOverlap a rect) rects")
  case True
  then show ?thesis by (rule mergeRect_overlap) simp
next
  case False
  then show ?thesis by (simp add: mergeRect_no_overlap)
qed

lemma length_cluster: "length (cluster acc cands) \<le> length acc + length cands"
proof (induction cands arbitrary: acc)
  case Nil
  show ?case by (simp add: cluster_Nil)
next
  case (Cons rect cands)
  have "length (cluster (mergeRect acc rect) cands) \<le> length (mergeRect acc rect) + length cands"
    by (rule Cons.IH)
  also have "\<dots> \<le> Suc (length acc) + length cands"
    using length_mergeRect [of acc rect] by simp
  finally show ?case by (simp add: cluster_Cons)
qed

lemma grown_from_refl: "grown_from (a :: 'f::preorder float6) a"
  by (simp add: grown_from_def)

lemma grown_from_trans:
  fixes a :: "'f::preorder float6"
  shows "grown_from a b \<Longrightarrow> grown_from b c \<Longrightarrow> grown_from a c"
  unfolding grown_from_def by (auto intro: order_trans)

lemma grown_from_assign:
  fixes a :: "'f::linorder float6"
  shows "grown_from (mergeRect_assign a rect) a"
  by (simp add: mergeRect_assign_union unionRect_def grown_from_def)

lemma mergeRect_grown:
  fixes rects :: "'f::linorder float6 list"
  assumes "list_all2 grown_from rects origin"
  shows "list_all2 grown_from (mergeRect rects rect)
           (origin @ (if list_ex (\<lambda>a. rectOverlap a rect) rects then [] else [rect]))"
proof (cases "list_ex (\<lambda>a. rectOverlap a rect) rects")
  case False
  with assms show ?thesis
    by (simp add: mergeRect_no_overlap list_all2_appendI grown_from_refl)
next
  case True
  then obtain pre a post where r: "rects = pre @ a # post"
    and m: "mergeRect rects rect = pre @ mergeRect_assign a rect # post"
    by (rule mergeRect_overlap)
  have A: "list_all2 grown_from (pre @ mergeRect_assign a rect # post) (pre @ a # post)"
    by (intro list_all2_appendI list_all2_refl grown_from_refl)
      (simp add: grown_from_assign list_all2_refl grown_from_refl)
  from assms have B: "list_all2 grown_from (pre @ a # post) origin"
    by (simp only: r)
  have "list_all2 grown_from (pre @ mergeRect_assign a rect # post) origin"
  proof (rule list_all2_trans)
    show "grown_from x y \<Longrightarrow> grown_from y z \<Longrightarrow> grown_from x z" for x y z :: "'f float6"
      by (rule grown_from_trans)
    show "list_all2 grown_from (pre @ mergeRect_assign a rect # post) (pre @ a # post)"
      by (rule A)
    show "list_all2 grown_from (pre @ a # post) origin"
      by (rule B)
  qed
  with True show ?thesis by (simp add: m)
qed

lemma cluster_grown:
  fixes acc :: "'f::linorder float6 list"
  shows "list_all2 grown_from acc origin \<Longrightarrow>
         list_all2 grown_from (cluster acc cands) (origin @ created acc cands)"
proof (induction cands arbitrary: acc origin)
  case Nil
  then show ?case by (simp add: cluster_Nil)
next
  case (Cons rect cands)
  from Cons.IH [OF mergeRect_grown [OF Cons.prems, of rect]] show ?case
    by (cases "list_ex (\<lambda>a. rectOverlap a rect) acc") (simp_all add: cluster_Cons)
qed

section \<open>Candidates\<close>

lemma candidates_empty:
  "\<forall>cell \<in> set (grid_cells s). \<not> cell_coverage s coverage c cell > t \<Longrightarrow>
   candidates F s coverage bboxes t c = []"
  by (simp add: candidates_def filter_empty_conv)

lemma execute_rects_nth:
  "c < unat n \<Longrightarrow>
   execute_rects F s coverage bboxes n t ! c = cluster [] (candidates F s coverage bboxes t c)"
  by (simp add: execute_rects_classes)

text \<open>
  C5. For every class \<open>c\<close> the loops of \<open>execute\<close> go through the cells in row-major order
  (\<open>y\<close> outer, \<open>x\<close> inner: the list \<open>List.product\<close> of the rows and the columns) and
  merge, in that order, one rectangle for each cell whose coverage for the class is
  greater than the threshold, and none for the others. The edges of the rectangle of
  cell \<open>(x, y)\<close> are the box offsets of the cell plus \<open>x * cellWidth\<close> (left and right) or
  \<open>y * cellHeight\<close> (top and bottom), times the image scale. A class with no cell above
  the threshold accumulates no rectangle; \<open>execute\<close> returns its list all the same.
\<close>

theorem execute_candidates_row_major:
  "execute_rects F s coverage bboxes n t =
     map (\<lambda>c. cluster [] (candidates F s coverage bboxes t c)) [0..<unat n]
   \<and> execute F s coverage bboxes n t =
       map (execute_region F)
         (take (unat (gridSize s * n)) (concat (execute_rects F s coverage bboxes n t)))
   \<and> candidates F s coverage bboxes t c =
       map (\<lambda>cell. execute_rect F s bboxes (cell_coverage s coverage c cell) c (fst cell) (snd cell))
         (filter (\<lambda>cell. cell_coverage s coverage c cell > t)
            (List.product [0..<unat (gridDimY s)] [0..<unat (gridDimX s)]))
   \<and> cell_coverage s coverage c (y, x) =
       coverage (of_nat c * gridSize s + of_nat y * gridDimX s + of_nat x)
   \<and> f6_x (execute_rect F s bboxes cvg c y x) =
       (bboxes (0 * gridSize s + of_nat y * gridDimX s + of_nat x)
          + to_float F (uint (of_nat x * cellWidth s))) * imageScaleX s
   \<and> f6_y (execute_rect F s bboxes cvg c y x) =
       (bboxes (1 * gridSize s + of_nat y * gridDimX s + of_nat x)
          + to_float F (uint (of_nat y * cellHeight s))) * imageScaleY s
   \<and> f6_z (execute_rect F s bboxes cvg c y x) =
       (bboxes (2 * gridSize s + of_nat y * gridDimX s + of_nat x)
          + to_float F (uint (of_nat x * cellWidth s))) * imageScaleX s
   \<and> f6_w (execute_rect F s bboxes cvg c y x) =
       (bboxes (3 * gridSize s + of_nat y * gridDimX s + of_nat x)
          + to_float F (uint (of_nat y * cellHeight s))) * imageScaleY s
   \<and> ((\<forall>cell \<in> set (grid_cells s). \<not> cell_coverage s coverage c cell > t) \<longrightarrow> c < unat n \<longrightarrow>
        execute_rects F s coverage bboxes n t ! c = [])"
proof -
  have "f6_x (execute_rect F s bboxes cvg c y x) =
       (bboxes (0 * gridSize s + of_nat y * gridDimX s + of_nat x)
          + to_float F (uint (of_nat x * cellWidth s))) * imageScaleX s"
    and "f6_y (execute_rect F s bboxes cvg c y x) =
       (bboxes (1 * gridSize s + of_nat y * gridDimX s + of_nat x)
          + to_float F (uint (of_nat y * cellHeight s))) * imageScaleY s"
    and "f6_z (execute_rect F s bboxes cvg c y x) =
       (bboxes (2 * gridSize s + of_nat y * gridDimX s + of_nat x)
          + to_float F (uint (of_nat x * cellWidth s))) * imageScaleX s"
    and "f6_w (execute_rect F s bboxes cvg c y x) =
       (bboxes (3 * gridSize s + of_nat y * gridDimX s + of_nat x)
          + to_float F (uint (of_nat y * cellHeight s))) * imageScaleY s"
    by (simp_all add: execute_rect_def make_float6_def Let_def)
  moreover have "cell_coverage s coverage c (y, x) =
       coverage (of_nat c * gridSize s + of_nat y * gridDimX s + of_nat x)"
    by (simp add: cell_coverage_def)
  moreover have "candidates F s coverage bboxes t c =
       map (\<lambda>cell. execute_rect F s bboxes (cell_coverage s coverage c cell) c (fst cell) (snd cell))
         (filter (\<lambda>cell. cell_coverage s coverage c cell > t)
            (List.product [0..<unat (gridDimY s)] [0..<unat (gridDimX s)]))"
    by (simp only: candidates_def grid_cells_def)
  moreover have "(\<forall>cell \<in> set (grid_cells s). \<not> cell_coverage s coverage c cell > t) \<longrightarrow>
        c < unat n \<longrightarrow> execute_rects F s coverage bboxes n t ! c = []"
    by (simp add: execute_rects_nth candidates_empty cluster_Nil)
  ultimately show ?thesis
    using execute_rects_classes [of F s coverage bboxes n t]
      execute_regions [of F s coverage bboxes n t]
    by blast
qed


theorem execute_candidates_row_major_witness:
  "list_all (\<lambda>cell. \<not> cell_coverage demo_grid demo_quiet 0 cell > 1/2) (grid_cells demo_grid)
   \<and> execute_rects exact_conv demo_grid demo_quiet demo_bboxes 1 (1/2) ! 0 = []
   \<and> execute exact_conv demo_grid demo_quiet demo_bboxes 1 (1/2) = []
   \<and> candidates exact_conv demo_grid demo_coverage demo_bboxes (1/2) 0 =
       [make_float6 0 0 0 0 (9/10) 0, make_float6 1 1 1 1 (9/10) 0]"
proof -
  have h: "\<forall>cell \<in> set (grid_cells demo_grid). \<not> cell_coverage demo_grid demo_quiet 0 cell > 1/2"
    by code_simp
  have n: "(0::nat) < unat (1::size_t)"
    by simp
  have e: "execute_rects exact_conv demo_grid demo_quiet demo_bboxes 1 (1/2) ! 0 = []"
    using execute_candidates_row_major [of exact_conv demo_grid demo_quiet demo_bboxes 1 "1/2" 0]
      h n by blast
  have "list_all (\<lambda>cell. \<not> cell_coverage demo_grid demo_quiet 0 cell > 1/2) (grid_cells demo_grid)"
    using h by (simp add: list_all_iff)
  moreover have "execute exact_conv demo_grid demo_quiet demo_bboxes 1 (1/2) = []"
    by code_simp
  moreover have "candidates exact_conv demo_grid demo_coverage demo_bboxes (1/2) 0 =
       [make_float6 0 0 0 0 (9/10) 0, make_float6 1 1 1 1 (9/10) 0]"
    by code_simp
  ultimately show ?thesis using e by blast
qed

section \<open>Confidence and class of a region\<close>

lemma map_take_concat:
  "map f (take k (concat (map g cs))) = take k (concat (map (\<lambda>c. map f (g c)) cs))"
proof -
  have "map f (take k (concat (map g cs))) = take k (map f (concat (map g cs)))"
    by (simp only: take_map)
  also have "\<dots> = take k (concat (map (map f) (map g cs)))"
    by (simp only: map_concat)
  also have "\<dots> = take k (concat (map (\<lambda>c. map f (g c)) cs))"
    by (simp only: map_map comp_def)
  finally show ?thesis .
qed

lemma execute_by_class:
  "execute F s coverage bboxes n t =
     take (unat (gridSize s * n))
       (concat (map (\<lambda>c. map (execute_region F) (cluster [] (candidates F s coverage bboxes t c)))
                  [0..<unat n]))"
  by (simp add: execute_regions execute_rects_classes map_take_concat)

lemma cluster_created_v: "map f6_v (cluster [] cands) = map f6_v (created [] cands)"
  by (simp add: cluster_map_v)

lemma cluster_created_u: "map f6_u (cluster [] cands) = map f6_u (created [] cands)"
  by (simp add: cluster_map_u)

lemma execute_confidences:
  "map roi_confidence (execute F s coverage bboxes n t) =
     take (unat (gridSize s * n))
       (concat (map (\<lambda>c. map f6_v (created [] (candidates F s coverage bboxes t c))) [0..<unat n]))"
proof -
  have "map roi_confidence (execute F s coverage bboxes n t) =
     take (unat (gridSize s * n))
       (concat (map (\<lambda>c. map f6_v (cluster [] (candidates F s coverage bboxes t c))) [0..<unat n]))"
    by (simp add: execute_regions execute_rects_classes map_take_concat execute_region_def
        Let_def comp_def)
  then show ?thesis
    by (simp only: cluster_created_v)
qed

lemma execute_classIDs:
  "map roi_classID (execute F s coverage bboxes n t) =
     take (unat (gridSize s * n))
       (concat (map (\<lambda>c. map (\<lambda>r. ucast (to_size F (f6_u r)))
                            (created [] (candidates F s coverage bboxes t c))) [0..<unat n]))"
proof -
  have "map roi_classID (execute F s coverage bboxes n t) =
     take (unat (gridSize s * n))
       (concat (map (\<lambda>c. map (\<lambda>r. ucast (to_size F (f6_u r)))
                            (cluster [] (candidates F s coverage bboxes t c))) [0..<unat n]))"
    by (simp add: execute_regions execute_rects_classes map_take_concat execute_region_def
        Let_def comp_def)
  also have "\<dots> =
     take (unat (gridSize s * n))
       (concat (map (\<lambda>c. map (\<lambda>w. ucast (to_size F w))
                            (map f6_u (cluster [] (candidates F s coverage bboxes t c)))) [0..<unat n]))"
    by (simp add: comp_def)
  also have "\<dots> =
     take (unat (gridSize s * n))
       (concat (map (\<lambda>c. map (\<lambda>w. ucast (to_size F w))
                            (map f6_u (created [] (candidates F s coverage bboxes t c)))) [0..<unat n]))"
    by (simp only: cluster_created_u)
  also have "\<dots> =
     take (unat (gridSize s * n))
       (concat (map (\<lambda>c. map (\<lambda>r. ucast (to_size F (f6_u r)))
                            (created [] (candidates F s coverage bboxes t c))) [0..<unat n]))"
    by (simp add: comp_def)
  finally show ?thesis .
qed

text \<open>
  C6. A merge leaves the coverage \<open>v\<close> and the class \<open>u\<close> of every accumulated rectangle
  as they are, and a rectangle that is appended brings its own. So the confidences of
  the regions \<open>execute\<close> returns are, class by class, the coverages of the candidates that
  created the rectangles (\<open>created\<close>), each the coverage of its cell, and the class
  identifiers are the conversions of the class these candidates carry.
\<close>

theorem confidence_of_creating_cell:
  "map f6_v (mergeRect rects rect) =
     map f6_v rects @ (if list_ex (\<lambda>a. rectOverlap a rect) rects then [] else [f6_v rect])
   \<and> map f6_u (mergeRect rects rect) =
       map f6_u rects @ (if list_ex (\<lambda>a. rectOverlap a rect) rects then [] else [f6_u rect])
   \<and> map roi_confidence (execute F s coverage bboxes n t) =
       take (unat (gridSize s * n))
         (concat (map (\<lambda>c. map f6_v (created [] (candidates F s coverage bboxes t c)))
                    [0..<unat n]))
   \<and> map roi_classID (execute F s coverage bboxes n t) =
       take (unat (gridSize s * n))
         (concat (map (\<lambda>c. map (\<lambda>r. ucast (to_size F (f6_u r)))
                              (created [] (candidates F s coverage bboxes t c))) [0..<unat n]))
   \<and> subseq (created [] (candidates F s coverage bboxes t c)) (candidates F s coverage bboxes t c)
   \<and> f6_v (execute_rect F s bboxes cvg c y x) = cvg
   \<and> f6_u (execute_rect F s bboxes cvg c y x) = to_float F (int c)"
proof -
  have "f6_v (execute_rect F s bboxes cvg c y x) = cvg"
    and "f6_u (execute_rect F s bboxes cvg c y x) = to_float F (int c)"
    by (simp_all add: execute_rect_def make_float6_def Let_def)
  then show ?thesis
    using mergeRect_map_v [of rects rect] mergeRect_map_u [of rects rect]
      execute_confidences [of F s coverage bboxes n t]
      execute_classIDs [of F s coverage bboxes n t]
      subseq_created [of "[]" "candidates F s coverage bboxes t c"]
    by blast
qed

theorem confidence_of_creating_cell_witness:
  "execute exact_conv demo_grid demo_adjacent demo_boxes 1 (1/2) =
     [\<lparr>roi_classID = 0, roi_confidence = 3/5, roi_x = 0, roi_y = 0, roi_w = 2, roi_h = 1\<rparr>]
   \<and> candidates exact_conv demo_grid demo_adjacent demo_boxes (1/2) 0 =
       [make_float6 0 0 1 1 (3/5) 0, make_float6 1 0 2 1 (9/10) 0]
   \<and> created [] (candidates exact_conv demo_grid demo_adjacent demo_boxes (1/2) 0) =
       [make_float6 0 0 1 1 (3/5) 0]
   \<and> map roi_confidence (execute exact_conv demo_grid demo_adjacent demo_boxes 1 (1/2)) = [3/5]"
proof -
  have a: "candidates exact_conv demo_grid demo_adjacent demo_boxes (1/2) 0 =
       [make_float6 0 0 1 1 (3/5) 0, make_float6 1 0 2 1 (9/10) 0]"
    by code_simp
  have c: "created [] (candidates exact_conv demo_grid demo_adjacent demo_boxes (1/2) 0) =
       [make_float6 0 0 1 1 (3/5) 0]"
    by code_simp
  have e: "execute exact_conv demo_grid demo_adjacent demo_boxes 1 (1/2) =
     [\<lparr>roi_classID = 0, roi_confidence = 3/5, roi_x = 0, roi_y = 0, roi_w = 2, roi_h = 1\<rparr>]"
    by code_simp
  have r: "take (unat (gridSize demo_grid * 1))
         (concat (map (\<lambda>c. map f6_v (created [] (candidates exact_conv demo_grid demo_adjacent
                                                   demo_boxes (1/2) c)))
                    [0..<unat (1::size_t)])) = [3/5]"
    by code_simp
  from confidence_of_creating_cell
      [of _ _ exact_conv demo_grid demo_adjacent demo_boxes 1 "1/2", THEN conjunct2,
        THEN conjunct2, THEN conjunct1] r
  have "map roi_confidence (execute exact_conv demo_grid demo_adjacent demo_boxes 1 (1/2)) = [3/5]"
    by (rule trans)
  with a c e show ?thesis by blast
qed

section \<open>Conversion to integers\<close>

lemma execute_rect_to_size:
  "execute_rect (F\<lparr>to_size := g\<rparr>) s bboxes cvg c y x = execute_rect F s bboxes cvg c y x"
  by (simp add: execute_rect_def)

lemma execute_rects_to_size:
  "execute_rects (F\<lparr>to_size := g\<rparr>) s coverage bboxes n t = execute_rects F s coverage bboxes n t"
  by (simp add: execute_rects_classes candidates_def execute_rect_to_size)

text \<open>
  C7. The edges are converted to \<open>size_t\<close> in \<open>execute_region\<close> only, that is when the
  region is built from an accumulated rectangle: the accumulated rectangles do not
  depend on the conversion \<open>to_size\<close> at all. The region's x and y are the converted
  left and top edge, and its width and height are the converted right edge minus the
  converted left edge and the converted bottom edge minus the converted top edge (in
  \<open>size_t\<close> arithmetic).
\<close>

theorem truncation_at_region_construction:
  "execute F s coverage bboxes n t =
     map (execute_region F)
       (take (unat (gridSize s * n)) (concat (execute_rects F s coverage bboxes n t)))
   \<and> execute_rects (F\<lparr>to_size := g\<rparr>) s coverage bboxes n t =
       execute_rects F s coverage bboxes n t
   \<and> roi_x (execute_region F r) = to_size F (f6_x r)
   \<and> roi_y (execute_region F r) = to_size F (f6_y r)
   \<and> roi_w (execute_region F r) = to_size F (f6_z r) - to_size F (f6_x r)
   \<and> roi_h (execute_region F r) = to_size F (f6_w r) - to_size F (f6_y r)"
  by (simp add: execute_regions execute_rects_to_size execute_region_def Let_def)

theorem truncation_at_region_construction_witness:
  "execute_region exact_conv (make_float6 (3/2) (5/2) (15/4) (29/4) (9/10) 0) =
     \<lparr>roi_classID = 0, roi_confidence = 9/10, roi_x = 1, roi_y = 2, roi_w = 2, roi_h = 5\<rparr>
   \<and> roi_w (execute_region exact_conv (make_float6 (3/2) (5/2) (15/4) (29/4) (9/10) 0)) =
       to_size exact_conv (15/4) - to_size exact_conv (3/2)
   \<and> mergeRect [make_float6 (3/2) (5/2) 3 4 (9/10) 0] (make_float6 2 3 (15/4) (29/4) (1/2) (0::rat)) =
       [make_float6 (3/2) (5/2) (15/4) (29/4) (9/10) 0]"
proof -
  have "execute_region exact_conv (make_float6 (3/2) (5/2) (15/4) (29/4) (9/10) 0) =
     \<lparr>roi_classID = 0, roi_confidence = 9/10, roi_x = 1, roi_y = 2, roi_w = 2, roi_h = 5\<rparr>"
    by code_simp
  moreover have "mergeRect [make_float6 (3/2) (5/2) 3 4 (9/10) 0]
        (make_float6 2 3 (15/4) (29/4) (1/2) (0::rat)) =
       [make_float6 (3/2) (5/2) (15/4) (29/4) (9/10) 0]"
    by code_simp
  moreover have "roi_w (execute_region exact_conv (make_float6 (3/2) (5/2) (15/4) (29/4) (9/10) 0)) =
       to_size exact_conv (15/4) - to_size exact_conv (3/2)"
    using truncation_at_region_construction
      [of exact_conv _ _ _ _ _ _ "make_float6 (3/2) (5/2) (15/4) (29/4) (9/10) 0"]
    by (simp add: make_float6_def)
  ultimately show ?thesis by blast
qed

section \<open>Number of regions\<close>

lemma length_concat_le:
  "(\<And>c. length (g c) \<le> B) \<Longrightarrow> length (concat (map g cs)) \<le> length cs * B"
proof (induction cs)
  case Nil
  show ?case by simp
next
  case (Cons c cs)
  from Cons.prems have "length (g c) \<le> B" .
  moreover have "length (concat (map g cs)) \<le> length cs * B"
    using Cons.prems by (rule Cons.IH)
  ultimately show ?case by simp
qed

lemma length_candidates:
  "length (candidates F s coverage bboxes t c) \<le> unat (gridDimX s) * unat (gridDimY s)"
proof -
  have "length (candidates F s coverage bboxes t c) \<le> length (grid_cells s)"
    by (simp add: candidates_def)
  also have "\<dots> = unat (gridDimX s) * unat (gridDimY s)"
    by (simp add: grid_cells_def length_product mult.commute)
  finally show ?thesis .
qed

lemma length_class_rects:
  "length (cluster [] (candidates F s coverage bboxes t c)) \<le> unat (gridDimX s) * unat (gridDimY s)"
  using length_cluster [of "[]" "candidates F s coverage bboxes t c"]
    length_candidates [of F s coverage bboxes t c]
  by simp

lemma length_execute_cells:
  "length (execute F s coverage bboxes n t) \<le> unat n * (unat (gridDimX s) * unat (gridDimY s))"
proof -
  have "length (execute F s coverage bboxes n t) \<le>
          length (concat (map (\<lambda>c. cluster [] (candidates F s coverage bboxes t c)) [0..<unat n]))"
    by (simp add: execute_regions execute_rects_classes)
  also have "\<dots> \<le> length [0..<unat n] * (unat (gridDimX s) * unat (gridDimY s))"
    by (rule length_concat_le) (rule length_class_rects)
  finally show ?thesis by simp
qed

lemma unat_mult_le: "unat (a * b) \<le> unat a * unat (b :: 'a::len word)"
  by (simp add: unat_word_ariths)

text \<open>
  C8. The number of regions \<open>execute\<close> returns is at most \<open>gridSize * nbClasses\<close>, the
  bound \<open>maxBoundingBoxes\<close> of the output loop (computed in \<open>size_t\<close>, so at most the
  product of the two numbers), and at most the number of classes times the number of
  grid cells the loops visit: a merge adds at most one rectangle, so a class accumulates
  at most one rectangle for each of its cells.
\<close>

theorem execute_region_count:
  "length (execute F s coverage bboxes n t) \<le> unat (gridSize s * n)
   \<and> unat (gridSize s * n) \<le> unat (gridSize s) * unat n
   \<and> length (execute F s coverage bboxes n t) \<le> unat n * (unat (gridDimX s) * unat (gridDimY s))
   \<and> length (mergeRect rects rect) \<le> Suc (length rects)
   \<and> length (cluster [] cands) \<le> length cands"
proof -
  have "length (execute F s coverage bboxes n t) \<le> unat (gridSize s * n)"
    by (simp add: execute_regions)
  moreover have "length (cluster [] cands) \<le> length cands"
    using length_cluster [of "[]" cands] by simp
  ultimately show ?thesis
    using unat_mult_le [of "gridSize s" n] length_execute_cells [of F s coverage bboxes n t]
      length_mergeRect [of rects rect]
    by blast
qed

theorem execute_region_count_witness:
  "length (execute exact_conv demo_grid demo_coverage demo_bboxes 1 (1/2)) = 2
   \<and> length (execute exact_conv demo_grid demo_coverage demo_bboxes 1 (1/2))
       \<le> unat (gridSize demo_grid * 1)
   \<and> unat (gridSize demo_grid * 1) = 4"
proof -
  have "length (execute exact_conv demo_grid demo_coverage demo_bboxes 1 (1/2)) = 2"
    by code_simp
  moreover have "unat (gridSize demo_grid * 1) = 4"
    by (simp add: demo_grid_def)
  ultimately show ?thesis
    using execute_region_count [of exact_conv demo_grid demo_coverage demo_bboxes 1 "1/2"]
    by simp
qed

section \<open>Order of the regions\<close>

lemma candidates_u:
  "\<forall>r \<in> set (candidates F s coverage bboxes t c). f6_u r = to_float F (int c)"
  by (simp add: candidates_def execute_rect_def make_float6_def Let_def)

lemma created_u:
  "\<forall>r \<in> set cands. f6_u r = a \<Longrightarrow>
   map f6_u (created acc cands) = replicate (length (created acc cands)) a"
  by (induction cands arbitrary: acc) simp_all

lemma class_rects_u:
  "map f6_u (cluster [] (candidates F s coverage bboxes t c)) =
     replicate (length (cluster [] (candidates F s coverage bboxes t c))) (to_float F (int c))"
proof -
  let ?cands = "candidates F s coverage bboxes t c"
  have "map f6_u (cluster [] ?cands) = map f6_u (created [] ?cands)"
    by (rule cluster_created_u)
  also have "\<dots> = replicate (length (created [] ?cands)) (to_float F (int c))"
    by (rule created_u) (rule candidates_u)
  also have "length (created [] ?cands) = length (cluster [] ?cands)"
    using arg_cong [OF cluster_created_v [of ?cands], of length] by simp
  finally show ?thesis .
qed

text \<open>
  C10. The regions come class by class, the classes in ascending order of their index
  (the result is a prefix of the concatenation over \<open>c = 0, 1, ...\<close>), and every rectangle
  accumulated for class \<open>c\<close> carries the class \<open>c\<close>. Within a class the accumulated
  rectangles stand in the order in which they were created: the i-th one has grown from
  the i-th candidate that was appended as a new rectangle, and these candidates are a
  subsequence of the candidates in the order of the cells. (That a rectangle encloses the
  candidate it has grown from is stated for a linear order on \<open>float\<close>.)
\<close>

theorem execute_class_and_insertion_order:
  fixes F :: "'f::{plus,times,linorder} float_conv"
    and cands :: "'f float6 list"
  shows "execute F s coverage bboxes n t =
           take (unat (gridSize s * n))
             (concat (map (\<lambda>c. map (execute_region F)
                                  (cluster [] (candidates F s coverage bboxes t c)))
                        [0..<unat n]))
         \<and> map f6_u (cluster [] (candidates F s coverage bboxes t c)) =
             replicate (length (cluster [] (candidates F s coverage bboxes t c)))
               (to_float F (int c))
         \<and> list_all2 grown_from (cluster [] cands) (created [] cands)
         \<and> subseq (created [] cands) cands"
proof -
  have "list_all2 grown_from (cluster [] cands) ([] @ created [] cands)"
    by (rule cluster_grown) simp
  then have g: "list_all2 grown_from (cluster [] cands) (created [] cands)"
    by simp
  show ?thesis
    using execute_by_class [of F s coverage bboxes n t]
      class_rects_u [of F s coverage bboxes t c] g subseq_created [of "[]" cands]
    by blast
qed

theorem execute_class_and_insertion_order_witness:
  "execute exact_conv demo_grid demo_two_classes demo_bboxes 2 (1/2) =
     [\<lparr>roi_classID = 0, roi_confidence = 9/10, roi_x = 0, roi_y = 0, roi_w = 0, roi_h = 0\<rparr>,
      \<lparr>roi_classID = 0, roi_confidence = 9/10, roi_x = 1, roi_y = 1, roi_w = 0, roi_h = 0\<rparr>,
      \<lparr>roi_classID = 1, roi_confidence = 4/5, roi_x = 1, roi_y = 0, roi_w = 0, roi_h = 0\<rparr>]
   \<and> cluster [] (candidates exact_conv demo_grid demo_two_classes demo_bboxes (1/2) 0) =
       [make_float6 0 0 0 0 (9/10) 0, make_float6 1 1 1 1 (9/10) 0]
   \<and> cluster [] (candidates exact_conv demo_grid demo_two_classes demo_bboxes (1/2) 1) =
       [make_float6 1 0 1 0 (4/5) 1]"
proof -
  have r: "take (unat (gridSize demo_grid * 2))
             (concat (map (\<lambda>c. map (execute_region exact_conv)
                                  (cluster [] (candidates exact_conv demo_grid demo_two_classes
                                                 demo_bboxes (1/2) c)))
                        [0..<unat (2::size_t)])) =
     [\<lparr>roi_classID = 0, roi_confidence = 9/10, roi_x = 0, roi_y = 0, roi_w = 0, roi_h = 0\<rparr>,
      \<lparr>roi_classID = 0, roi_confidence = 9/10, roi_x = 1, roi_y = 1, roi_w = 0, roi_h = 0\<rparr>,
      \<lparr>roi_classID = 1, roi_confidence = 4/5, roi_x = 1, roi_y = 0, roi_w = 0, roi_h = 0\<rparr>]"
    by code_simp
  have 0: "cluster [] (candidates exact_conv demo_grid demo_two_classes demo_bboxes (1/2) 0) =
       [make_float6 0 0 0 0 (9/10) 0, make_float6 1 1 1 1 (9/10) 0]"
    by code_simp
  have 1: "cluster [] (candidates exact_conv demo_grid demo_two_classes demo_bboxes (1/2) 1) =
       [make_float6 1 0 1 0 (4/5) 1]"
    by code_simp
  from execute_class_and_insertion_order
      [of exact_conv demo_grid demo_two_classes demo_bboxes 2 "1/2", THEN conjunct1] r
  have "execute exact_conv demo_grid demo_two_classes demo_bboxes 2 (1/2) =
     [\<lparr>roi_classID = 0, roi_confidence = 9/10, roi_x = 0, roi_y = 0, roi_w = 0, roi_h = 0\<rparr>,
      \<lparr>roi_classID = 0, roi_confidence = 9/10, roi_x = 1, roi_y = 1, roi_w = 0, roi_h = 0\<rparr>,
      \<lparr>roi_classID = 1, roi_confidence = 4/5, roi_x = 1, roi_y = 0, roi_w = 0, roi_h = 0\<rparr>]"
    by (rule trans)
  with 0 1 show ?thesis by blast
qed

section \<open>Results of the setters\<close>

lemma thenE_Inr [simp]: "thenE (Inr a) f = f a"
  by (simp add: thenE_def)

lemma thenE_Inl [simp]: "thenE (Inl e) f = Inl e"
  by (simp add: thenE_def)

lemma calculateScale_Inr:
  "calculateScale F s = Inr s' \<longleftrightarrow>
     imageDimX s \<noteq> 0 \<and> imageDimY s \<noteq> 0 \<and> gridDimX s \<noteq> 0 \<and> gridDimY s \<noteq> 0
     \<and> s' = s\<lparr>imageScaleX := to_float F (uint (inputDimX s div imageDimX s)),
               imageScaleY := to_float F (uint (inputDimY s div imageDimY s)),
               cellWidth := inputDimX s div gridDimX s,
               cellHeight := inputDimY s div gridDimY s\<rparr>"
  by (auto simp add: calculateScale_def size_div_def)

section \<open>Execute before the sizes are supplied\<close>

text \<open>
  C1 does not hold of the code: \<open>execute\<close> checks none of the three flags. On a new
  object it returns the empty list where the specification asks for
  \<open>NotConfiguredError\<close>, and on an object whose input and grid size are supplied but whose
  image size is not, it returns one region with all coordinates zero.
\<close>

theorem execute_unconfigured_counterexample:
  "spec_execute exact_conv new_ClusteredNonMaximumSuppression demo_coverage demo_bboxes 1 (1/2) =
     Inl NotConfiguredError
   \<and> execute exact_conv new_ClusteredNonMaximumSuppression demo_coverage demo_bboxes 1 (1/2) = []
   \<and> setup_calls exact_conv [SetupInput 2 2, SetupGrid 2 2] new_ClusteredNonMaximumSuppression =
       Inr demo_unready
   \<and> spec_execute exact_conv demo_unready demo_coverage demo_bboxes 1 (1/2) = Inl NotConfiguredError
   \<and> spec_execute exact_conv demo_unready demo_coverage demo_bboxes 1 (1/2)
     \<noteq> Inr (execute exact_conv demo_unready demo_coverage demo_bboxes 1 (1/2))
   \<and> execute exact_conv demo_unready demo_coverage demo_bboxes 1 (1/2) =
       [\<lparr>roi_classID = 0, roi_confidence = 9/10, roi_x = 0, roi_y = 0, roi_w = 0, roi_h = 0\<rparr>]"
  by code_simp

lemma unready_zero_new: "unready_zero new_ClusteredNonMaximumSuppression"
  by (simp add: unready_zero_def new_ClusteredNonMaximumSuppression_def)

lemma unready_zero_call:
  "unready_zero s \<Longrightarrow> setup_call F k s = Inr s' \<Longrightarrow> unready_zero s'"
  by (cases k)
    (auto simp add: unready_zero_def ready_def setupImage_def setupInput_def setupGrid_def
      calculateScale_Inr Let_def split: if_splits)

lemma unready_zero_calls:
  "unready_zero s \<Longrightarrow> setup_calls F ks s = Inr s' \<Longrightarrow> unready_zero s'"
proof (induction ks arbitrary: s)
  case Nil
  then show ?case by simp
next
  case (Cons k ks)
  from Cons.prems(2) obtain s1 where 1: "setup_call F k s = Inr s1"
    and 2: "setup_calls F ks s1 = Inr s'"
    by (cases "setup_call F k s") simp_all
  from Cons.prems(1) 1 have "unready_zero s1" by (rule unready_zero_call)
  then show ?case using 2 by (rule Cons.IH)
qed

lemma execute_no_rows:
  "gridDimY s = 0 \<Longrightarrow> execute F s coverage bboxes n t = []"
  by (simp add: execute_by_class candidates_def grid_cells_def cluster_Nil)

lemma execute_flags:
  "execute F (s\<lparr>imageReady := a, inputReady := b, gridReady := c\<rparr>) coverage bboxes n t =
     execute F s coverage bboxes n t"
  by (simp add: execute_by_class candidates_def grid_cells_def cell_coverage_def
      execute_rect_def)

lemma execute_result_flags:
  "execute_result L F (s\<lparr>imageReady := a, inputReady := b, gridReady := c\<rparr>) coverage bboxes n t =
     execute_result L F s coverage bboxes n t"
  by (simp add: execute_result_def execute_flags)

lemma execute_result_not_NotConfigured:
  "execute_result L F s coverage bboxes n t \<noteq> Inl NotConfiguredError"
  by (simp add: execute_result_def)

lemma execute_result_no_grid:
  "gridDimY s = 0 \<Longrightarrow> gridSize s = 0 \<Longrightarrow>
   execute_result L F s coverage bboxes n t =
     (if unat n \<le> max_size_classes L then Inr [] else Inl LengthError)"
  by (simp add: execute_result_def execute_no_rows not_less)

text \<open>
  C1, as the code has it. \<open>execute\<close> tests none of the three flags: its result is the same
  whatever they are, and it is never \<open>NotConfiguredError\<close>. On an object configured
  through its setters for which not all three sizes have been supplied, the four scale
  factors are still the zeros of the constructor, and when the grid size is among the
  missing ones \<open>execute\<close> returns the empty list, whatever the coverage, the box offsets
  and the threshold, for every number of classes that the vector of the classes can
  hold; for a larger number \<open>resize\<close> throws \<open>std::length_error\<close>.
\<close>

theorem execute_before_setup:
  fixes F :: "'f::{zero,plus,times,ord} float_conv"
  shows "execute_result L F (s\<lparr>imageReady := a, inputReady := b, gridReady := c\<rparr>)
             coverage bboxes n t =
           execute_result L F s coverage bboxes n t
         \<and> execute_result L F s coverage bboxes n t \<noteq> Inl NotConfiguredError
         \<and> (setup_calls F ks new_ClusteredNonMaximumSuppression = Inr s \<longrightarrow>
            \<not> (imageReady s \<and> inputReady s \<and> gridReady s) \<longrightarrow>
              imageScaleX s = 0 \<and> imageScaleY s = 0 \<and> cellWidth s = 0 \<and> cellHeight s = 0
              \<and> (\<not> gridReady s \<longrightarrow>
                   execute_result L F s coverage bboxes n t =
                     (if unat n \<le> max_size_classes L then Inr [] else Inl LengthError)))"
proof -
  have "imageScaleX s = 0 \<and> imageScaleY s = 0 \<and> cellWidth s = 0 \<and> cellHeight s = 0
        \<and> (\<not> gridReady s \<longrightarrow>
             execute_result L F s coverage bboxes n t =
               (if unat n \<le> max_size_classes L then Inr [] else Inl LengthError))"
    if run: "setup_calls F ks new_ClusteredNonMaximumSuppression = Inr s"
      and unready: "\<not> (imageReady s \<and> inputReady s \<and> gridReady s)"
  proof -
    from unready_zero_new run have z: "unready_zero s"
      by (rule unready_zero_calls)
    with unready have "imageScaleX s = 0 \<and> imageScaleY s = 0 \<and> cellWidth s = 0 \<and> cellHeight s = 0"
      unfolding unready_zero_def ready_def by blast
    moreover have "execute_result L F s coverage bboxes n t =
        (if unat n \<le> max_size_classes L then Inr [] else Inl LengthError)"
      if "\<not> gridReady s"
    proof -
      from z that have "gridDimY s = 0" and "gridSize s = 0"
        by (simp_all add: unready_zero_def)
      then show ?thesis by (rule execute_result_no_grid)
    qed
    ultimately show ?thesis by blast
  qed
  then show ?thesis
    using execute_result_flags execute_result_not_NotConfigured
    by blast
qed

theorem execute_before_setup_witness:
  "setup_calls exact_conv [SetupImage 2 2, SetupInput 2 2] new_ClusteredNonMaximumSuppression =
     Inr (new_ClusteredNonMaximumSuppression
            \<lparr>imageDimX := 2, imageDimY := 2, inputDimX := 2, inputDimY := 2,
             imageReady := True, inputReady := True\<rparr>)
   \<and> execute_result demo_limits exact_conv
         (new_ClusteredNonMaximumSuppression
            \<lparr>imageDimX := 2, imageDimY := 2, inputDimX := 2, inputDimY := 2,
             imageReady := True, inputReady := True\<rparr>) demo_coverage demo_bboxes 1 (1/2) = Inr []
   \<and> execute_result demo_limits exact_conv
         (new_ClusteredNonMaximumSuppression
            \<lparr>imageDimX := 2, imageDimY := 2, inputDimX := 2, inputDimY := 2,
             imageReady := True, inputReady := True\<rparr>) demo_coverage demo_bboxes (2 ^ 62) (1/2) =
       Inl LengthError
   \<and> setup_calls exact_conv [SetupGrid 1073741824 1073741824] new_ClusteredNonMaximumSuppression =
       Inr demo_wide
   \<and> execute_result demo_limits exact_conv demo_wide demo_coverage demo_bboxes 1 (1/2) =
       Inl LengthError"
proof -
  let ?s = "new_ClusteredNonMaximumSuppression
            \<lparr>imageDimX := 2, imageDimY := 2, inputDimX := 2, inputDimY := 2,
             imageReady := True, inputReady := True\<rparr> :: rat ClusteredNonMaximumSuppression"
  have 1: "setup_calls exact_conv [SetupImage 2 2, SetupInput 2 2]
             new_ClusteredNonMaximumSuppression = Inr ?s"
    by code_simp
  have 2: "\<not> (imageReady ?s \<and> inputReady ?s \<and> gridReady ?s)"
    by (simp add: new_ClusteredNonMaximumSuppression_def)
  have 3: "\<not> gridReady ?s"
    by (simp add: new_ClusteredNonMaximumSuppression_def)
  have small: "unat (1 :: size_t) \<le> max_size_classes demo_limits"
    by (simp add: demo_limits_def)
  have large: "\<not> unat (2 ^ 62 :: size_t) \<le> max_size_classes demo_limits"
    by (simp add: demo_limits_def)
  from execute_before_setup [where L = demo_limits and F = exact_conv and s = ?s
      and coverage = demo_coverage and bboxes = demo_bboxes and n = 1 and t = "1/2"
      and ks = "[SetupImage 2 2, SetupInput 2 2]"] 1 2 3 small
  have "execute_result demo_limits exact_conv ?s demo_coverage demo_bboxes 1 (1/2) = Inr []"
    by simp
  moreover
  from execute_before_setup [where L = demo_limits and F = exact_conv and s = ?s
      and coverage = demo_coverage and bboxes = demo_bboxes and n = "2 ^ 62" and t = "1/2"
      and ks = "[SetupImage 2 2, SetupInput 2 2]"] 1 2 3 large
  have "execute_result demo_limits exact_conv ?s demo_coverage demo_bboxes (2 ^ 62) (1/2) =
          Inl LengthError"
    by simp
  moreover have
    "setup_calls exact_conv [SetupGrid 1073741824 1073741824] new_ClusteredNonMaximumSuppression =
       Inr demo_wide"
    by (simp add: setupGrid_def new_ClusteredNonMaximumSuppression_def demo_wide_def Let_def)
  moreover have
    "execute_result demo_limits exact_conv demo_wide demo_coverage demo_bboxes 1 (1/2) =
       Inl LengthError"
    by (simp add: execute_result_def demo_limits_def demo_wide_def)
  ultimately show ?thesis using 1 by blast
qed

section \<open>The scale factors\<close>

text \<open>
  C3 does not hold of the code: \<open>calculateScale\<close> divides \<open>size_t\<close> values, so its
  quotients are truncated. For image size 4 by 4, input size 6 by 6 and grid size 4 by 4
  the four scale factors are 1, where the exact quotients are 3/2.
\<close>

theorem exact_quotient_counterexample:
  "map_sum id (scale_factors exact_conv)
     (setup_calls exact_conv [SetupImage 4 4, SetupInput 6 6, SetupGrid 4 4]
        new_ClusteredNonMaximumSuppression) = Inr (1, 1, 1, 1)
   \<and> map_sum id exact_scale_factors
       (setup_calls exact_conv [SetupImage 4 4, SetupInput 6 6, SetupGrid 4 4]
          new_ClusteredNonMaximumSuppression) = Inr (3/2, 3/2, 3/2, 3/2)
   \<and> map_sum id (scale_factors exact_conv)
       (setup_calls exact_conv [SetupImage 4 4, SetupInput 6 6, SetupGrid 4 4]
          new_ClusteredNonMaximumSuppression)
     \<noteq> map_sum id exact_scale_factors
         (setup_calls exact_conv [SetupImage 4 4, SetupInput 6 6, SetupGrid 4 4]
            new_ClusteredNonMaximumSuppression)"
  by code_simp


lemma setup_call_scaled:
  "setup_call F k s = Inr s' \<Longrightarrow> ready s' \<Longrightarrow> scaled F s'"
  by (cases k)
    (auto simp add: scaled_def ready_def setupImage_def setupInput_def setupGrid_def
      calculateScale_Inr Let_def split: if_splits)

lemma setup_calls_scaled:
  "setup_calls F ks s = Inr s' \<Longrightarrow> \<not> ready s \<or> scaled F s \<Longrightarrow> ready s' \<Longrightarrow> scaled F s'"
proof (induction ks arbitrary: s)
  case Nil
  then show ?case by simp
next
  case (Cons k ks)
  from Cons.prems(1) obtain s1 where 1: "setup_call F k s = Inr s1"
    and 2: "setup_calls F ks s1 = Inr s'"
    by (cases "setup_call F k s") simp_all
  from 1 have "\<not> ready s1 \<or> scaled F s1"
    using setup_call_scaled by blast
  with 2 show ?case
    using Cons.prems(3) by (rule Cons.IH)
qed

lemma exact_quotient:
  fixes a b :: size_t
  shows "b \<noteq> 0 \<Longrightarrow> unat a = q * unat b \<Longrightarrow> uint (a div b) = int q"
proof -
  assume b: "b \<noteq> 0" and q: "unat a = q * unat b"
  from b have "0 < unat b" by (simp add: unat_gt_0)
  with q have "unat a div unat b = q" by simp
  then show ?thesis
    by (simp add: uint_nat unat_div)
qed

text \<open>
  C3, as the code has it. On an object configured through its setters, once the three
  sizes are supplied, no divisor is zero, and \<open>cellWidth\<close> and \<open>cellHeight\<close> are the
  truncating integer quotients of the input size by the grid size. Where an image
  dimension divides the input dimension exactly, the image scale is the conversion to
  \<open>float\<close> of the exact quotient.
\<close>

theorem scale_factors_integer_quotients:
  fixes F :: "'f::zero float_conv"
  assumes "setup_calls F ks new_ClusteredNonMaximumSuppression = Inr s"
    and "imageReady s \<and> inputReady s \<and> gridReady s"
  shows "imageDimX s \<noteq> 0 \<and> imageDimY s \<noteq> 0 \<and> gridDimX s \<noteq> 0 \<and> gridDimY s \<noteq> 0
         \<and> unat (cellWidth s) = unat (inputDimX s) div unat (gridDimX s)
         \<and> unat (cellHeight s) = unat (inputDimY s) div unat (gridDimY s)
         \<and> (unat (inputDimX s) = qx * unat (imageDimX s) \<longrightarrow> imageScaleX s = to_float F (int qx))
         \<and> (unat (inputDimY s) = qy * unat (imageDimY s) \<longrightarrow> imageScaleY s = to_float F (int qy))"
proof -
  have "\<not> ready (new_ClusteredNonMaximumSuppression :: 'f ClusteredNonMaximumSuppression)"
    by (simp add: ready_def new_ClusteredNonMaximumSuppression_def)
  with assms have sc: "scaled F s"
    using setup_calls_scaled [of F ks new_ClusteredNonMaximumSuppression s]
    by (simp add: ready_def)
  then have nz: "imageDimX s \<noteq> 0" "imageDimY s \<noteq> 0" "gridDimX s \<noteq> 0" "gridDimY s \<noteq> 0"
    by (simp_all add: scaled_def)
  from sc have "unat (cellWidth s) = unat (inputDimX s) div unat (gridDimX s)"
    and "unat (cellHeight s) = unat (inputDimY s) div unat (gridDimY s)"
    by (simp_all add: scaled_def unat_div)
  moreover have
    "unat (inputDimX s) = qx * unat (imageDimX s) \<longrightarrow> imageScaleX s = to_float F (int qx)"
  proof
    assume "unat (inputDimX s) = qx * unat (imageDimX s)"
    with nz(1) have "uint (inputDimX s div imageDimX s) = int qx"
      by (rule exact_quotient)
    with sc show "imageScaleX s = to_float F (int qx)"
      by (simp add: scaled_def)
  qed
  moreover have
    "unat (inputDimY s) = qy * unat (imageDimY s) \<longrightarrow> imageScaleY s = to_float F (int qy)"
  proof
    assume "unat (inputDimY s) = qy * unat (imageDimY s)"
    with nz(2) have "uint (inputDimY s div imageDimY s) = int qy"
      by (rule exact_quotient)
    with sc show "imageScaleY s = to_float F (int qy)"
      by (simp add: scaled_def)
  qed
  ultimately show ?thesis using nz by blast
qed

theorem scale_factors_integer_quotients_witness:
  "setup_calls exact_conv [SetupImage 2 2, SetupInput 4 4, SetupGrid 3 3]
     new_ClusteredNonMaximumSuppression = Inr demo_halved
   \<and> unat (cellWidth demo_halved) = unat (inputDimX demo_halved) div unat (gridDimX demo_halved)
   \<and> unat (cellWidth demo_halved) = 1
   \<and> imageScaleX demo_halved = to_float exact_conv (int 2)
   \<and> imageScaleX demo_halved = 2"
proof -
  have 1: "setup_calls exact_conv [SetupImage 2 2, SetupInput 4 4, SetupGrid 3 3]
     new_ClusteredNonMaximumSuppression = Inr demo_halved"
    by code_simp
  have 2: "imageReady demo_halved \<and> inputReady demo_halved \<and> gridReady demo_halved"
    by (simp add: demo_halved_def)
  have 3: "unat (inputDimX demo_halved) = 2 * unat (imageDimX demo_halved)"
    by (simp add: demo_halved_def)
  from scale_factors_integer_quotients [OF 1 2, of 2] 3
  have "unat (cellWidth demo_halved) = unat (inputDimX demo_halved) div unat (gridDimX demo_halved)"
    and "imageScaleX demo_halved = to_float exact_conv (int 2)"
    by blast+
  moreover have "unat (cellWidth demo_halved) = 1" and "imageScaleX demo_halved = 2"
    by (simp_all add: demo_halved_def)
  ultimately show ?thesis using 1 by blast
qed

section \<open>The setters in any order\<close>

lemma thenE_setup_Nil [simp]: "thenE r (setup_calls F []) = r"
  by (cases r) simp_all

lemma setup_three:
  fixes F :: "'f::zero float_conv"
  shows "setup_calls F [SetupImage iw ih, SetupInput nw nh, SetupGrid gw gh]
           new_ClusteredNonMaximumSuppression =
         calculateScale F (with_sizes new_ClusteredNonMaximumSuppression iw ih nw nh gw gh)"
    and "setup_calls F [SetupImage iw ih, SetupGrid gw gh, SetupInput nw nh]
           new_ClusteredNonMaximumSuppression =
         calculateScale F (with_sizes new_ClusteredNonMaximumSuppression iw ih nw nh gw gh)"
    and "setup_calls F [SetupInput nw nh, SetupImage iw ih, SetupGrid gw gh]
           new_ClusteredNonMaximumSuppression =
         calculateScale F (with_sizes new_ClusteredNonMaximumSuppression iw ih nw nh gw gh)"
    and "setup_calls F [SetupInput nw nh, SetupGrid gw gh, SetupImage iw ih]
           new_ClusteredNonMaximumSuppression =
         calculateScale F (with_sizes new_ClusteredNonMaximumSuppression iw ih nw nh gw gh)"
    and "setup_calls F [SetupGrid gw gh, SetupImage iw ih, SetupInput nw nh]
           new_ClusteredNonMaximumSuppression =
         calculateScale F (with_sizes new_ClusteredNonMaximumSuppression iw ih nw nh gw gh)"
    and "setup_calls F [SetupGrid gw gh, SetupInput nw nh, SetupImage iw ih]
           new_ClusteredNonMaximumSuppression =
         calculateScale F (with_sizes new_ClusteredNonMaximumSuppression iw ih nw nh gw gh)"
  by (simp_all add: setupImage_def setupInput_def setupGrid_def with_sizes_def
      new_ClusteredNonMaximumSuppression_def Let_def)

lemma calculateScale_frame:
  "calculateScale F s = Inr s' \<Longrightarrow>
   \<exists>a b c d. s' = s\<lparr>imageScaleX := a, imageScaleY := b, cellWidth := c, cellHeight := d\<rparr>"
  by (auto simp add: calculateScale_Inr)

lemma frame_id:
  "s = s\<lparr>imageScaleX := imageScaleX s, imageScaleY := imageScaleY s,
         cellWidth := cellWidth s, cellHeight := cellHeight s\<rparr>"
  by simp

lemma setupImage_frame:
  assumes "setupImage F iw ih s = Inr s'"
  shows "\<exists>a b c d. s' = s\<lparr>imageDimX := iw, imageDimY := ih, imageReady := True,
                           imageScaleX := a, imageScaleY := b, cellWidth := c, cellHeight := d\<rparr>"
proof (cases "inputReady s \<and> gridReady s")
  case True
  with assms have
    "calculateScale F (s\<lparr>imageDimX := iw, imageDimY := ih, imageReady := True\<rparr>) = Inr s'"
    by (simp add: setupImage_def Let_def)
  then show ?thesis by (rule calculateScale_frame)
next
  case False
  with assms have "s' = s\<lparr>imageDimX := iw, imageDimY := ih, imageReady := True\<rparr>"
    by (auto simp add: setupImage_def Let_def)
  then show ?thesis
    using frame_id [of "s\<lparr>imageDimX := iw, imageDimY := ih, imageReady := True\<rparr>"] by blast
qed

lemma setupInput_frame:
  assumes "setupInput F nw nh s = Inr s'"
  shows "\<exists>a b c d. s' = s\<lparr>inputDimX := nw, inputDimY := nh, inputReady := True,
                           imageScaleX := a, imageScaleY := b, cellWidth := c, cellHeight := d\<rparr>"
proof (cases "imageReady s \<and> gridReady s")
  case True
  with assms have
    "calculateScale F (s\<lparr>inputDimX := nw, inputDimY := nh, inputReady := True\<rparr>) = Inr s'"
    by (simp add: setupInput_def Let_def)
  then show ?thesis by (rule calculateScale_frame)
next
  case False
  with assms have "s' = s\<lparr>inputDimX := nw, inputDimY := nh, inputReady := True\<rparr>"
    by (auto simp add: setupInput_def Let_def)
  then show ?thesis
    using frame_id [of "s\<lparr>inputDimX := nw, inputDimY := nh, inputReady := True\<rparr>"] by blast
qed

lemma setupGrid_frame:
  assumes "setupGrid F gw gh s = Inr s'"
  shows "\<exists>a b c d. s' = s\<lparr>gridDimX := gw, gridDimY := gh, gridSize := gw * gh, gridReady := True,
                           imageScaleX := a, imageScaleY := b, cellWidth := c, cellHeight := d\<rparr>"
proof (cases "imageReady s \<and> inputReady s")
  case True
  with assms have
    "calculateScale F (s\<lparr>gridDimX := gw, gridDimY := gh, gridSize := gw * gh,
                          gridReady := True\<rparr>) = Inr s'"
    by (simp add: setupGrid_def Let_def)
  then show ?thesis by (rule calculateScale_frame)
next
  case False
  with assms have
    "s' = s\<lparr>gridDimX := gw, gridDimY := gh, gridSize := gw * gh, gridReady := True\<rparr>"
    by (auto simp add: setupGrid_def Let_def)
  then show ?thesis
    using frame_id [of "s\<lparr>gridDimX := gw, gridDimY := gh, gridSize := gw * gh,
                          gridReady := True\<rparr>"] by blast
qed

lemma setup_call_frame:
  "setup_call F k s = Inr s' \<Longrightarrow>
   \<exists>a b c d. s' = (set_sizes k s)
                  \<lparr>imageScaleX := a, imageScaleY := b, cellWidth := c, cellHeight := d\<rparr>"
proof (cases k)
  case (SetupImage dimX dimY)
  assume "setup_call F k s = Inr s'"
  with SetupImage show ?thesis
    using setupImage_frame [of F dimX dimY s s'] by simp
next
  case (SetupInput dimX dimY)
  assume "setup_call F k s = Inr s'"
  with SetupInput show ?thesis
    using setupInput_frame [of F dimX dimY s s'] by simp
next
  case (SetupGrid dimX dimY)
  assume "setup_call F k s = Inr s'"
  with SetupGrid show ?thesis
    using setupGrid_frame [of F dimX dimY s s'] by simp
qed

lemma set_sizes_scale:
  "set_sizes k (s\<lparr>imageScaleX := a, imageScaleY := b, cellWidth := c, cellHeight := d\<rparr>) =
     (set_sizes k s)\<lparr>imageScaleX := a, imageScaleY := b, cellWidth := c, cellHeight := d\<rparr>"
  by (cases k) simp_all

lemma thenE_eq_Inr: "thenE r f = Inr b \<longleftrightarrow> (\<exists>a. r = Inr a \<and> f a = Inr b)"
  by (cases r) simp_all

lemma three_setters:
  assumes run: "setup_calls F [k1, k2, k3] s = Inr s'"
    and sizes: "set_sizes k3 (set_sizes k2 (set_sizes k1 s)) = with_sizes s iw ih nw nh gw gh"
  shows "calculateScale F (with_sizes s iw ih nw nh gw gh) = Inr s'"
proof -
  from run obtain s1 s2 where 1: "setup_call F k1 s = Inr s1"
    and 2: "setup_call F k2 s1 = Inr s2" and 3: "setup_call F k3 s2 = Inr s'"
    by (auto simp add: thenE_eq_Inr simp del: setup_call.simps)
  from 1 obtain a1 b1 c1 d1 where "s1 = (set_sizes k1 s)
      \<lparr>imageScaleX := a1, imageScaleY := b1, cellWidth := c1, cellHeight := d1\<rparr>"
    using setup_call_frame by blast
  moreover from 2 obtain a2 b2 c2 d2 where "s2 = (set_sizes k2 s1)
      \<lparr>imageScaleX := a2, imageScaleY := b2, cellWidth := c2, cellHeight := d2\<rparr>"
    using setup_call_frame by blast
  moreover from 3 obtain a b c d where "s' = (set_sizes k3 s2)
      \<lparr>imageScaleX := a, imageScaleY := b, cellWidth := c, cellHeight := d\<rparr>"
    using setup_call_frame by blast
  ultimately have e: "s' = (with_sizes s iw ih nw nh gw gh)
      \<lparr>imageScaleX := a, imageScaleY := b, cellWidth := c, cellHeight := d\<rparr>"
    by (simp add: set_sizes_scale sizes)
  then have "ready s'"
    by (simp add: ready_def with_sizes_def)
  with 3 have "scaled F s'"
    by (rule setup_call_scaled)
  with e show ?thesis
    by (simp add: calculateScale_Inr scaled_def with_sizes_def)
qed

lemma any_order:
  assumes "setup_calls F [SetupImage iw ih, SetupInput nw nh, SetupGrid gw gh] s = Inr s'
    \<or> setup_calls F [SetupImage iw ih, SetupGrid gw gh, SetupInput nw nh] s = Inr s'
    \<or> setup_calls F [SetupInput nw nh, SetupImage iw ih, SetupGrid gw gh] s = Inr s'
    \<or> setup_calls F [SetupInput nw nh, SetupGrid gw gh, SetupImage iw ih] s = Inr s'
    \<or> setup_calls F [SetupGrid gw gh, SetupImage iw ih, SetupInput nw nh] s = Inr s'
    \<or> setup_calls F [SetupGrid gw gh, SetupInput nw nh, SetupImage iw ih] s = Inr s'"
  shows "calculateScale F (with_sizes s iw ih nw nh gw gh) = Inr s'"
  using assms
proof (elim disjE)
  assume "setup_calls F [SetupImage iw ih, SetupInput nw nh, SetupGrid gw gh] s = Inr s'"
  then show ?thesis by (rule three_setters) (simp add: with_sizes_def)
next
  assume "setup_calls F [SetupImage iw ih, SetupGrid gw gh, SetupInput nw nh] s = Inr s'"
  then show ?thesis by (rule three_setters) (simp add: with_sizes_def)
next
  assume "setup_calls F [SetupInput nw nh, SetupImage iw ih, SetupGrid gw gh] s = Inr s'"
  then show ?thesis by (rule three_setters) (simp add: with_sizes_def)
next
  assume "setup_calls F [SetupInput nw nh, SetupGrid gw gh, SetupImage iw ih] s = Inr s'"
  then show ?thesis by (rule three_setters) (simp add: with_sizes_def)
next
  assume "setup_calls F [SetupGrid gw gh, SetupImage iw ih, SetupInput nw nh] s = Inr s'"
  then show ?thesis by (rule three_setters) (simp add: with_sizes_def)
next
  assume "setup_calls F [SetupGrid gw gh, SetupInput nw nh, SetupImage iw ih] s = Inr s'"
  then show ?thesis by (rule three_setters) (simp add: with_sizes_def)
qed

lemma setupImage_idem:
  "thenE (setupImage F iw ih s) (setupImage F iw ih) = setupImage F iw ih s"
proof (cases "setupImage F iw ih s")
  case (Inl e)
  then show ?thesis by simp
next
  case (Inr s')
  then have "setupImage F iw ih s' = Inr s'"
    by (auto simp add: setupImage_def Let_def calculateScale_Inr split: if_splits)
  with Inr show ?thesis by simp
qed

lemma setupInput_idem:
  "thenE (setupInput F nw nh s) (setupInput F nw nh) = setupInput F nw nh s"
proof (cases "setupInput F nw nh s")
  case (Inl e)
  then show ?thesis by simp
next
  case (Inr s')
  then have "setupInput F nw nh s' = Inr s'"
    by (auto simp add: setupInput_def Let_def calculateScale_Inr split: if_splits)
  with Inr show ?thesis by simp
qed

lemma setupGrid_idem:
  "thenE (setupGrid F gw gh s) (setupGrid F gw gh) = setupGrid F gw gh s"
proof (cases "setupGrid F gw gh s")
  case (Inl e)
  then show ?thesis by simp
next
  case (Inr s')
  then have "setupGrid F gw gh s' = Inr s'"
    by (auto simp add: setupGrid_def Let_def calculateScale_Inr split: if_splits)
  with Inr show ?thesis by simp
qed

lemma setupImage_again:
  "imageReady s \<and> inputReady s \<and> gridReady s \<Longrightarrow> setupImage F iw ih s = Inr s' \<Longrightarrow>
   imageScaleX s' = to_float F (uint (inputDimX s div iw))
   \<and> imageScaleY s' = to_float F (uint (inputDimY s div ih))
   \<and> cellWidth s' = inputDimX s div gridDimX s \<and> cellHeight s' = inputDimY s div gridDimY s"
  by (auto simp add: setupImage_def Let_def calculateScale_Inr)

lemma setupInput_again:
  "imageReady s \<and> inputReady s \<and> gridReady s \<Longrightarrow> setupInput F nw nh s = Inr s' \<Longrightarrow>
   imageScaleX s' = to_float F (uint (nw div imageDimX s))
   \<and> imageScaleY s' = to_float F (uint (nh div imageDimY s))
   \<and> cellWidth s' = nw div gridDimX s \<and> cellHeight s' = nh div gridDimY s"
  by (auto simp add: setupInput_def Let_def calculateScale_Inr)

lemma setupGrid_again:
  "imageReady s \<and> inputReady s \<and> gridReady s \<Longrightarrow> setupGrid F gw gh s = Inr s' \<Longrightarrow>
   imageScaleX s' = to_float F (uint (inputDimX s div imageDimX s))
   \<and> imageScaleY s' = to_float F (uint (inputDimY s div imageDimY s))
   \<and> cellWidth s' = inputDimX s div gw \<and> cellHeight s' = inputDimY s div gh"
  by (auto simp add: setupGrid_def Let_def calculateScale_Inr)


text \<open>
  C4. On a new object the three setters, called in any of the six orders, end in the same
  state, scale factors included (or in the same error, when a divisor is zero): the
  result of \<open>calculateScale\<close> on the object that holds the three sizes. On any object,
  new or not, each of the six orders that completes ends in that same state. Calling a
  setter twice with the same sizes gives what one call gives. Calling a setter on an
  object that has the three sizes computes the four scale factors again, from the new
  sizes and the other, unchanged ones.
\<close>

theorem setters_in_any_order:
  fixes F :: "'f::zero float_conv"
  shows "setup_calls F [SetupImage iw ih, SetupInput nw nh, SetupGrid gw gh]
           new_ClusteredNonMaximumSuppression =
         calculateScale F (with_sizes new_ClusteredNonMaximumSuppression iw ih nw nh gw gh)
    \<and> setup_calls F [SetupImage iw ih, SetupGrid gw gh, SetupInput nw nh]
           new_ClusteredNonMaximumSuppression =
         calculateScale F (with_sizes new_ClusteredNonMaximumSuppression iw ih nw nh gw gh)
    \<and> setup_calls F [SetupInput nw nh, SetupImage iw ih, SetupGrid gw gh]
           new_ClusteredNonMaximumSuppression =
         calculateScale F (with_sizes new_ClusteredNonMaximumSuppression iw ih nw nh gw gh)
    \<and> setup_calls F [SetupInput nw nh, SetupGrid gw gh, SetupImage iw ih]
           new_ClusteredNonMaximumSuppression =
         calculateScale F (with_sizes new_ClusteredNonMaximumSuppression iw ih nw nh gw gh)
    \<and> setup_calls F [SetupGrid gw gh, SetupImage iw ih, SetupInput nw nh]
           new_ClusteredNonMaximumSuppression =
         calculateScale F (with_sizes new_ClusteredNonMaximumSuppression iw ih nw nh gw gh)
    \<and> setup_calls F [SetupGrid gw gh, SetupInput nw nh, SetupImage iw ih]
           new_ClusteredNonMaximumSuppression =
         calculateScale F (with_sizes new_ClusteredNonMaximumSuppression iw ih nw nh gw gh)
    \<and> (setup_calls F [SetupImage iw ih, SetupInput nw nh, SetupGrid gw gh] s = Inr t
        \<or> setup_calls F [SetupImage iw ih, SetupGrid gw gh, SetupInput nw nh] s = Inr t
        \<or> setup_calls F [SetupInput nw nh, SetupImage iw ih, SetupGrid gw gh] s = Inr t
        \<or> setup_calls F [SetupInput nw nh, SetupGrid gw gh, SetupImage iw ih] s = Inr t
        \<or> setup_calls F [SetupGrid gw gh, SetupImage iw ih, SetupInput nw nh] s = Inr t
        \<or> setup_calls F [SetupGrid gw gh, SetupInput nw nh, SetupImage iw ih] s = Inr t
        \<longrightarrow> calculateScale F (with_sizes s iw ih nw nh gw gh) = Inr t)
    \<and> thenE (setupImage F iw ih s) (setupImage F iw ih) = setupImage F iw ih s
    \<and> thenE (setupInput F nw nh s) (setupInput F nw nh) = setupInput F nw nh s
    \<and> thenE (setupGrid F gw gh s) (setupGrid F gw gh) = setupGrid F gw gh s
    \<and> (imageReady s \<and> inputReady s \<and> gridReady s \<longrightarrow> setupImage F iw ih s = Inr s' \<longrightarrow>
         imageScaleX s' = to_float F (uint (inputDimX s div iw))
         \<and> imageScaleY s' = to_float F (uint (inputDimY s div ih))
         \<and> cellWidth s' = inputDimX s div gridDimX s \<and> cellHeight s' = inputDimY s div gridDimY s)
    \<and> (imageReady s \<and> inputReady s \<and> gridReady s \<longrightarrow> setupInput F nw nh s = Inr s' \<longrightarrow>
         imageScaleX s' = to_float F (uint (nw div imageDimX s))
         \<and> imageScaleY s' = to_float F (uint (nh div imageDimY s))
         \<and> cellWidth s' = nw div gridDimX s \<and> cellHeight s' = nh div gridDimY s)
    \<and> (imageReady s \<and> inputReady s \<and> gridReady s \<longrightarrow> setupGrid F gw gh s = Inr s' \<longrightarrow>
         imageScaleX s' = to_float F (uint (inputDimX s div imageDimX s))
         \<and> imageScaleY s' = to_float F (uint (inputDimY s div imageDimY s))
         \<and> cellWidth s' = inputDimX s div gw \<and> cellHeight s' = inputDimY s div gh)"
  using setup_three [where F = F and iw = iw and ih = ih and nw = nw and nh = nh
      and gw = gw and gh = gh]
    any_order [of F iw ih nw nh gw gh s t]
    setupImage_idem [of F iw ih s] setupInput_idem [of F nw nh s] setupGrid_idem [of F gw gh s]
    setupImage_again [of s F iw ih s'] setupInput_again [of s F nw nh s']
    setupGrid_again [of s F gw gh s']
  by blast

theorem setters_in_any_order_witness:
  "setup_calls exact_conv [SetupGrid 2 2, SetupInput 2 2, SetupImage 2 2]
     new_ClusteredNonMaximumSuppression = Inr demo_grid
   \<and> setup_calls exact_conv [SetupImage 2 2, SetupInput 2 2, SetupGrid 2 2]
       new_ClusteredNonMaximumSuppression = Inr demo_grid
   \<and> setup_calls exact_conv [SetupInput 4 4, SetupGrid 3 3, SetupImage 2 2] demo_grid =
       Inr demo_halved
   \<and> calculateScale exact_conv (with_sizes demo_grid 2 2 4 4 3 3) = Inr demo_halved
   \<and> setupImage exact_conv 1 1 demo_grid = Inr demo_rescaled
   \<and> imageScaleX demo_rescaled = to_float exact_conv (uint (inputDimX demo_grid div 1))"
proof -
  have c: "calculateScale exact_conv (with_sizes new_ClusteredNonMaximumSuppression 2 2 2 2 2 2) =
             Inr demo_grid"
    by code_simp
  have r: "imageReady demo_grid \<and> inputReady demo_grid \<and> gridReady demo_grid"
    by (simp add: demo_grid_def)
  have i: "setupImage exact_conv 1 1 demo_grid = Inr demo_rescaled"
    by code_simp
  have o: "setup_calls exact_conv [SetupInput 4 4, SetupGrid 3 3, SetupImage 2 2] demo_grid =
             Inr demo_halved"
    by code_simp
  from setters_in_any_order [of exact_conv 1 1 2 2 2 2 demo_grid _ demo_rescaled] r i
  have "imageScaleX demo_rescaled = to_float exact_conv (uint (inputDimX demo_grid div 1))"
    by blast
  moreover from setters_in_any_order [of exact_conv 2 2 2 2 2 2] c
  have "setup_calls exact_conv [SetupGrid 2 2, SetupInput 2 2, SetupImage 2 2]
          new_ClusteredNonMaximumSuppression = Inr demo_grid"
    and "setup_calls exact_conv [SetupImage 2 2, SetupInput 2 2, SetupGrid 2 2]
          new_ClusteredNonMaximumSuppression = Inr demo_grid"
    by simp_all
  moreover from setters_in_any_order [of exact_conv 2 2 4 4 3 3 demo_grid demo_halved] o
  have "calculateScale exact_conv (with_sizes demo_grid 2 2 4 4 3 3) = Inr demo_halved"
    by blast
  ultimately show ?thesis using i o by blast
qed

end
